theory Spec2Isabelle
  imports Complex_Main
begin

section \<open>The tree mode and its toggle (src/App.tsx)\<close>

text \<open>
  Modelled from the spec: the enum \<open>TreeMode\<close> is imported from \<open>../types\<close>, a file
  that is not part of the sources at hand. The specification calls it a two-value toggle,
  FORMED versus CHAOS, and the code only ever names \<open>TreeMode.FORMED\<close> and
  \<open>TreeMode.CHAOS\<close>.
\<close>

datatype TreeMode = FORMED | CHAOS

text \<open>
  \<^verbatim>\<open>setMode((prev) => (prev === TreeMode.FORMED ? TreeMode.CHAOS : TreeMode.FORMED))\<close>
\<close>

definition toggleMode :: "TreeMode \<Rightarrow> TreeMode" where
  "toggleMode prev = (if prev = FORMED then CHAOS else FORMED)"

text \<open>\<^verbatim>\<open>useState<TreeMode>(TreeMode.FORMED)\<close>: the mode the application starts in.\<close>

definition initialMode :: TreeMode where
  "initialMode = FORMED"

text \<open>The modes the application can be in: the initial one, and every toggle of one.\<close>

inductive reachableMode :: "TreeMode \<Rightarrow> bool" where
  start: "reachableMode initialMode"
| toggle: "reachableMode m \<Longrightarrow> reachableMode (toggleMode m)"

section \<open>Numbers, vectors and rotations\<close>

text \<open>
  A JavaScript number is modelled as a real. The arithmetic of the definitions below is
  exact; the rounding of IEEE doubles is written out where a claimed bound depends on it
  (the chaos position, in the section on double arithmetic). \<open>Math.cos\<close>, \<open>Math.sin\<close> and \<open>Math.PI\<close>
  are \<^term>\<open>cos\<close>, \<^term>\<open>sin\<close> and \<^term>\<open>pi\<close>.

  \<open>THREE.Vector3\<close>, \<open>THREE.Quaternion\<close> and \<open>THREE.Euler\<close> (in its default order
  XYZ) are records of their components.
\<close>

record Vector3 =
  vx :: real
  vy :: real
  vz :: real

record Quaternion =
  qx :: real
  qy :: real
  qz :: real
  qw :: real

record Euler =
  ex :: real
  ey :: real
  ez :: real

text \<open>
  The part of a \<open>THREE.Object3D\<close> the animation touches. three.js keeps \<open>rotation\<close> and
  \<open>quaternion\<close> in step: a change of either recomputes the other through a callback.
\<close>

record Object3D =
  position :: Vector3
  scale :: Vector3
  quaternion :: Quaternion
  rotation :: Euler

text \<open>
  \<^verbatim>\<open>new THREE.Object3D()\<close>: at the origin, of unit scale and not rotated.
\<close>

definition new_Object3D :: Object3D where
  "new_Object3D =
     \<lparr>position = \<lparr>vx = 0, vy = 0, vz = 0\<rparr>,
      scale = \<lparr>vx = 1, vy = 1, vz = 1\<rparr>,
      quaternion = \<lparr>qx = 0, qy = 0, qz = 0, qw = 1\<rparr>,
      rotation = \<lparr>ex = 0, ey = 0, ez = 0\<rparr>\<rparr>"

text \<open>
  The operations of three.js the per-frame code calls. The library is not part of the
  sources, so its operations are parameters of the model:
  \<^item> \<open>lerp v w alpha\<close> is \<open>v.lerp(w, alpha)\<close>, the new value of \<open>v\<close>;
  \<^item> \<open>slerp q p t\<close> is \<open>q.slerp(p, t)\<close>, the new value of \<open>q\<close>;
  \<^item> \<open>lookAt p target\<close> is the quaternion of a fresh, parentless \<open>Object3D\<close> placed
    at \<open>p\<close> after \<open>lookAt(target)\<close>;
  \<^item> \<open>rotateY q a\<close> and \<open>rotateZ q a\<close> are the quaternion of an object with
    quaternion \<open>q\<close> after \<open>rotateY(a)\<close> and \<open>rotateZ(a)\<close>;
  \<^item> \<open>setFromQuaternion q\<close> is \<open>Euler.setFromQuaternion(q)\<close> and
    \<open>setFromEuler e\<close> is \<open>Quaternion.setFromEuler(e)\<close>.
\<close>

record three =
  lerp :: "Vector3 \<Rightarrow> Vector3 \<Rightarrow> real \<Rightarrow> Vector3"
  slerp :: "Quaternion \<Rightarrow> Quaternion \<Rightarrow> real \<Rightarrow> Quaternion"
  lookAt :: "Vector3 \<Rightarrow> Vector3 \<Rightarrow> Quaternion"
  rotateY :: "Quaternion \<Rightarrow> real \<Rightarrow> Quaternion"
  rotateZ :: "Quaternion \<Rightarrow> real \<Rightarrow> Quaternion"
  setFromQuaternion :: "Quaternion \<Rightarrow> Euler"
  setFromEuler :: "Euler \<Rightarrow> Quaternion"

text \<open>An assignment to the quaternion, with the callback that refreshes \<open>rotation\<close>.\<close>

definition set_quaternion :: "three \<Rightarrow> Quaternion \<Rightarrow> Object3D \<Rightarrow> Object3D" where
  "set_quaternion T q g = g\<lparr>quaternion := q, rotation := setFromQuaternion T q\<rparr>"

text \<open>
  \<^verbatim>\<open>obj.rotation.x = v\<close> and \<^verbatim>\<open>obj.rotation.z = v\<close>: the component is stored and the
  callback recomputes the quaternion from the whole Euler triple.
\<close>

definition set_rotation_x :: "three \<Rightarrow> real \<Rightarrow> Object3D \<Rightarrow> Object3D" where
  "set_rotation_x T v g =
     (let e = (rotation g)\<lparr>ex := v\<rparr> in g\<lparr>rotation := e, quaternion := setFromEuler T e\<rparr>)"

definition set_rotation_z :: "three \<Rightarrow> real \<Rightarrow> Object3D \<Rightarrow> Object3D" where
  "set_rotation_z T v g =
     (let e = (rotation g)\<lparr>ez := v\<rparr> in g\<lparr>rotation := e, quaternion := setFromEuler T e\<rparr>)"

section \<open>The photo layout of Polaroids (src/components/Polaroids.tsx)\<close>

record PhotoData =
  photo_id :: nat
  url :: string
  chaosPos :: Vector3
  targetPos :: Vector3
  speed :: real

text \<open>
  The body of the loop of \<open>photoData\<close>: the entry pushed for index \<open>i\<close>. \<open>Math.random\<close>
  is a stream \<open>random\<close> of draws, of which \<open>k\<close> have been taken before this iteration;
  the body takes three more, in the order of the source (distance, height spread, speed).
\<close>

definition photoData_entry :: "string list \<Rightarrow> (nat \<Rightarrow> real) \<Rightarrow> nat \<Rightarrow> nat \<Rightarrow> PhotoData" where
  "photoData_entry uploadedPhotos random i k =
     (let height = 9;
          maxRadius = 5.0;
          count = real (length uploadedPhotos);
          yNorm = 0.2 + (real i / count) * 0.6;
          y = yNorm * height;
          r = maxRadius * (1 - yNorm) + 0.8;
          theta = real i * 2.39996;
          targetPos = \<lparr>vx = r * cos theta, vy = y, vz = r * sin theta\<rparr>;
          relativeY = 5;
          relativeZ = 20;
          angle = (real i / count) * pi * 2;
          distance = 3 + random k * 4;
          heightSpread = (random (k + 1) - 0.5) * 8;
          chaosPos = \<lparr>vx = distance * cos angle * 1.2,
                      vy = relativeY + heightSpread,
                      vz = relativeZ - 4 + distance * sin angle * 0.5\<rparr>
      in \<lparr>photo_id = i,
          url = uploadedPhotos ! i,
          chaosPos = chaosPos,
          targetPos = targetPos,
          speed = 0.8 + random (k + 2) * 1.5\<rparr>)"

text \<open>
  \<^verbatim>\<open>for (let i = 0; i < count; i++) { ...; data.push({...}) }\<close>. The read
  \<open>uploadedPhotos[i]\<close> of the body is in range under the loop's guard.
\<close>

function photoData_loop ::
  "string list \<Rightarrow> (nat \<Rightarrow> real) \<Rightarrow> nat \<Rightarrow> nat \<Rightarrow> PhotoData list \<Rightarrow> PhotoData list" where
  "photoData_loop uploadedPhotos random i k data =
     (if i < length uploadedPhotos
      then photoData_loop uploadedPhotos random (i + 1) (k + 3)
             (data @ [photoData_entry uploadedPhotos random i k])
      else data)"
  by pat_completeness auto
termination
  by (relation "measure (\<lambda>(uploadedPhotos, random, i, k, data). length uploadedPhotos - i)") auto

declare photoData_loop.simps [simp del]

definition photoData :: "string list \<Rightarrow> (nat \<Rightarrow> real) \<Rightarrow> PhotoData list" where
  "photoData uploadedPhotos random =
     (if length uploadedPhotos = 0 then [] else photoData_loop uploadedPhotos random 0 0 [])"

section \<open>Double arithmetic\<close>

text \<open>
  The numbers of the program are IEEE doubles, and every operation on them rounds its
  exact result to the nearest double, a tie going to the even significand. The bounds of
  the chaos position are sensitive to this, so that computation is also given with the
  rounding written out.

  \<open>round_half_even\<close> rounds a real to the nearest integer, a tie going to the even one.
\<close>

definition round_half_even :: "real \<Rightarrow> int" where
  "round_half_even y =
     (let r = round y in if real_of_int r - y = 1 / 2 \<and> odd r then r - 1 else r)"

text \<open>
  The double nearest to a positive real \<open>x\<close>: with \<open>2 powr E \<le> x < 2 powr (E + 1)\<close>,
  the doubles around \<open>x\<close> are the multiples of \<open>2 powr (E - 52)\<close> (a significand of 53
  bits); below \<open>2 powr (- 1022)\<close> the step stays \<open>2 powr (- 1074)\<close>. Overflow to
  \<open>Infinity\<close> is left out: no number of this program comes near it.
\<close>

definition double_round_pos :: "real \<Rightarrow> real" where
  "double_round_pos x =
     (let e = real_of_int (max \<lfloor>log 2 x\<rfloor> (- 1022) - 52)
      in 2 powr e * real_of_int (round_half_even (x / 2 powr e)))"

text \<open>Rounding is symmetric about zero.\<close>

definition double_round :: "real \<Rightarrow> real" where
  "double_round x =
     (if x = 0 then 0
      else if x < 0 then - double_round_pos (- x)
      else double_round_pos x)"

text \<open>
  What the bounds below need of a rounding function: it is monotone, and it leaves the
  half-integers up to \<open>32\<close> in size as they are. \<open>double_round\<close> is one, and so is the
  identity, the exact arithmetic of the rest of the model.
\<close>

definition rounding :: "(real \<Rightarrow> real) \<Rightarrow> bool" where
  "rounding fl =
     ((\<forall>x y. x \<le> y \<longrightarrow> fl x \<le> fl y)
      \<and> (\<forall>m::int. \<bar>m\<bar> \<le> 64 \<longrightarrow> fl (real_of_int m / 2) = real_of_int m / 2))"

text \<open>
  The chaos position of the loop body, every operation rounded by \<open>fl\<close>, in the order
  JavaScript evaluates it: \<^verbatim>\<open>(i / count) * Math.PI * 2\<close>, \<^verbatim>\<open>3 + Math.random() * 4\<close>,
  \<^verbatim>\<open>(Math.random() - 0.5) * 8\<close>, \<^verbatim>\<open>distance * Math.cos(angle) * 1.2\<close>,
  \<^verbatim>\<open>relativeY + heightSpread\<close> and
  \<^verbatim>\<open>relativeZ - 4 + distance * Math.sin(angle) * 0.5\<close>. \<open>Math.PI\<close> and the literal
  \<open>1.2\<close> are the doubles nearest to \<open>pi\<close> and to \<open>1.2\<close>; \<open>Math.cos\<close> and
  \<open>Math.sin\<close> are those of the engine, parameters here; \<open>draw1\<close> and \<open>draw2\<close> are the
  two draws, in this order.
\<close>

definition chaosPos_rounded ::
  "(real \<Rightarrow> real) \<Rightarrow> (real \<Rightarrow> real) \<Rightarrow> (real \<Rightarrow> real) \<Rightarrow> nat \<Rightarrow> nat \<Rightarrow> real \<Rightarrow> real \<Rightarrow> Vector3" where
  "chaosPos_rounded fl Math_cos Math_sin count i draw1 draw2 =
     (let relativeY = 5;
          relativeZ = 20;
          angle = fl (fl (fl (real i / real count) * fl pi) * 2);
          distance = fl (3 + fl (draw1 * 4));
          heightSpread = fl (fl (draw2 - 0.5) * 8)
      in \<lparr>vx = fl (fl (distance * Math_cos angle) * fl 1.2),
          vy = fl (relativeY + heightSpread),
          vz = fl (fl (relativeZ - 4) + fl (fl (distance * Math_sin angle) * 0.5))\<rparr>)"

text \<open>What \<open>Math.random\<close> promises: every draw is in \<open>[0, 1)\<close>.\<close>

definition unit_draws :: "(nat \<Rightarrow> real) \<Rightarrow> bool" where
  "unit_draws random = (\<forall>k. 0 \<le> random k \<and> random k < 1)"

text \<open>
  The element \<open>Polaroids\<close> renders for each entry,
  \<^verbatim>\<open><PolaroidItem key={i} index={i} data={data} mode={mode} onPhotoClick={onPhotoClick} />\<close>,
  with its props in this order. A callback prop is optional (\<open>None\<close> when it is not
  passed); \<open>'e\<close> is what a call of it does.
\<close>

datatype 'e element = PolaroidItem nat nat PhotoData TreeMode "(string \<Rightarrow> 'e) option"

definition Polaroids_render ::
  "PhotoData list \<Rightarrow> TreeMode \<Rightarrow> (string \<Rightarrow> 'e) option \<Rightarrow> 'e element list" where
  "Polaroids_render photoData' mode onPhotoClick =
     map (\<lambda>(data, i). PolaroidItem i i data mode onPhotoClick)
       (zip photoData' [0..<length photoData'])"

section \<open>One polaroid: PolaroidItem (src/components/Polaroids.tsx)\<close>

text \<open>
  The state of one mounted \<open>PolaroidItem\<close>: its three \<open>useState\<close> cells, the memoised
  \<open>swayOffset\<close> and the ref to its group (\<open>None\<close> while the ref is \<open>null\<close>).
\<close>

record Texture =
  image :: string
  colorSpace :: string

record PolaroidItem_state =
  texture :: "Texture option"
  error :: bool
  hovered :: bool
  swayOffset :: real
  groupRef :: "Object3D option"

text \<open>
  The first render: \<^verbatim>\<open>useState(null)\<close>, \<^verbatim>\<open>useState(false)\<close> twice,
  \<^verbatim>\<open>useRef(null)\<close> and \<^verbatim>\<open>useMemo(() => Math.random() * 100, [])\<close>, whose empty
  dependency list makes the draw \<open>r\<close> happen once for the life of the item.
\<close>

definition PolaroidItem_mount :: "real \<Rightarrow> PolaroidItem_state" where
  "PolaroidItem_mount r =
     \<lparr>texture = None, error = False, hovered = False, swayOffset = r * 100, groupRef = None\<rparr>"

text \<open>The two callbacks handed to \<open>TextureLoader.load\<close>: success and failure.\<close>

definition SRGBColorSpace :: string where
  "SRGBColorSpace = ''srgb''"

definition onLoad :: "Texture \<Rightarrow> PolaroidItem_state \<Rightarrow> PolaroidItem_state" where
  "onLoad loadedTex item =
     item\<lparr>texture := Some (loadedTex\<lparr>colorSpace := SRGBColorSpace\<rparr>), error := False\<rparr>"

definition onError :: "PolaroidItem_state \<Rightarrow> PolaroidItem_state" where
  "onError item = item\<lparr>error := True\<rparr>"

text \<open>
  \<^verbatim>\<open>if (onPhotoClick && !error) { onPhotoClick(data.url); }\<close>. The result is the call
  made, \<open>None\<close> when the callback is not called. (\<open>stopPropagation\<close> concerns other
  listeners and is not modelled.)
\<close>

definition handleClick ::
  "(string \<Rightarrow> 'e) option \<Rightarrow> PolaroidItem_state \<Rightarrow> PhotoData \<Rightarrow> 'e option" where
  "handleClick onPhotoClick item data =
     (case onPhotoClick of
        None \<Rightarrow> None
      | Some f \<Rightarrow> (if \<not> error item then Some (f (url data)) else None))"

definition handlePointerOver :: "PolaroidItem_state \<Rightarrow> PolaroidItem_state" where
  "handlePointerOver item = item\<lparr>hovered := True\<rparr>"

definition handlePointerOut :: "PolaroidItem_state \<Rightarrow> PolaroidItem_state" where
  "handlePointerOut item = item\<lparr>hovered := False\<rparr>"

text \<open>
  The callback of \<open>useFrame\<close>, run once per animation frame with the clock's
  \<open>elapsedTime\<close> and the time step \<open>delta\<close>. It returns at once while the ref is
  \<open>null\<close>; otherwise it moves, scales and turns the group, in the order of the source.
\<close>

definition PolaroidItem_useFrame ::
  "three \<Rightarrow> PhotoData \<Rightarrow> TreeMode \<Rightarrow> real \<Rightarrow> real \<Rightarrow> PolaroidItem_state \<Rightarrow> PolaroidItem_state" where
  "PolaroidItem_useFrame T data mode elapsedTime delta item =
     (case groupRef item of
        None \<Rightarrow> item
      | Some grp \<Rightarrow>
          (let isFormed = (mode = FORMED);
               time = elapsedTime;
               targetPos' = (if isFormed then targetPos data else chaosPos data);
               step = delta * speed data;
               g1 = grp\<lparr>position := lerp T (position grp) targetPos' step\<rparr>;
               targetScale = (if hovered item then 1.15 else 1);
               g2 = g1\<lparr>scale := lerp T (scale g1)
                      \<lparr>vx = targetScale, vy = targetScale, vz = targetScale\<rparr> (delta * 8)\<rparr>
           in item\<lparr>groupRef := Some
                (if isFormed then
                   (let dummy = rotateY T
                          (lookAt T (position g2) \<lparr>vx = 0, vy = vy (position g2), vz = 0\<rparr>) pi;
                        g3 = set_quaternion T (slerp T (quaternion g2) dummy step) g2;
                        swayAngle = sin (time * 2.0 + swayOffset item) * 0.08;
                        tiltAngle = cos (time * 1.5 + swayOffset item) * 0.05;
                        g4 = set_quaternion T (rotateZ T (quaternion g3) (swayAngle * delta * 5)) g3;
                        currentRot = setFromQuaternion T (quaternion g4);
                        g5 = set_rotation_z T (ez currentRot + swayAngle * 0.05) g4
                    in set_rotation_x T (ex currentRot + tiltAngle * 0.05) g5)
                 else
                   (let cameraPos = \<lparr>vx = 0, vy = 9, vz = 20\<rparr>;
                        dummy = lookAt T (position g2) cameraPos;
                        g3 = set_quaternion T (slerp T (quaternion g2) dummy (delta * 3)) g2;
                        wobbleX = sin (time * 1.5 + swayOffset item) * 0.03;
                        wobbleZ = cos (time * 1.2 + swayOffset item) * 0.03;
                        currentRot = setFromQuaternion T (quaternion g3);
                        g4 = set_rotation_x T (ex currentRot + wobbleX) g3
                    in set_rotation_z T (ez currentRot + wobbleZ) g4))\<rparr>))"

text \<open>
  What the item renders, as far as it depends on the state: the colour of the paper
  backing, the material of the photo area
  (\<^verbatim>\<open>texture && !error ? <meshBasicMaterial map={texture} /> : <meshStandardMaterial color={error ? "#550000" : "#cccccc"} />\<close>)
  and the text of the label.
\<close>

datatype Material = meshBasicMaterial Texture | meshStandardMaterial string

record PolaroidItem_view =
  paperColor :: string
  photoMaterial :: Material
  label :: string

definition PolaroidItem_render :: "PolaroidItem_state \<Rightarrow> PolaroidItem_view" where
  "PolaroidItem_render item =
     \<lparr>paperColor = (if hovered item then ''#ffffee'' else ''#fdfdfd''),
      photoMaterial =
        (case texture item of
           Some tex \<Rightarrow>
             (if \<not> error item then meshBasicMaterial tex
              else meshStandardMaterial (if error item then ''#550000'' else ''#cccccc''))
         | None \<Rightarrow> meshStandardMaterial (if error item then ''#550000'' else ''#cccccc'')),
      label = (if error item then ''Image not found'' else ''Happy Memories'')\<rparr>"

section \<open>The closest photo: the frame callback of Polaroids\<close>

text \<open>
  The argument of \<open>onClosestPhotoChange\<close>: a URL or \<open>null\<close>; the array read
  \<open>uploadedPhotos[closestIndex]\<close> is \<open>undefined\<close> out of range.
\<close>

datatype photoUrl = Null | Undefined | Url string

definition array_get :: "string list \<Rightarrow> nat \<Rightarrow> photoUrl" where
  "array_get xs i = (if i < length xs then Url (xs ! i) else Undefined)"

text \<open>The group of \<open>Polaroids\<close> with its children, one \<open>Object3D\<close> per rendered item.\<close>

record Group =
  children :: "Object3D list"

text \<open>
  The two three.js operations of this callback, parameters as above:
  \<open>getWorldPosition child\<close> is the vector \<open>child.getWorldPosition\<close> writes, and
  \<open>distanceTo v w\<close> is \<open>v.distanceTo(w)\<close>.
\<close>

record three_scene =
  getWorldPosition :: "Object3D \<Rightarrow> Vector3"
  distanceTo :: "Vector3 \<Rightarrow> Vector3 \<Rightarrow> real"

text \<open>
  \<open>distance < minDistance\<close>, where \<open>minDistance\<close> starts as \<open>Infinity\<close>: \<open>None\<close> is
  \<open>Infinity\<close>, above every real.
\<close>

definition less_minDistance :: "real \<Rightarrow> real option \<Rightarrow> bool" where
  "less_minDistance distance minDistance =
     (case minDistance of None \<Rightarrow> True | Some m \<Rightarrow> distance < m)"

text \<open>
  \<^verbatim>\<open>children.forEach((child, i) => { if (i < photoData.length) { ... } })\<close>, as a
  recursion over the children still to visit; \<open>n\<close> is \<open>photoData.length\<close>, and the pair
  is \<open>(minDistance, closestIndex)\<close>.
\<close>

fun closest_forEach ::
  "three_scene \<Rightarrow> Vector3 \<Rightarrow> nat \<Rightarrow> Object3D list \<Rightarrow> nat \<Rightarrow> real option \<times> nat \<Rightarrow> real option \<times> nat" where
  "closest_forEach S cameraPos n [] i (minDistance, closestIndex) = (minDistance, closestIndex)"
| "closest_forEach S cameraPos n (child # rest) i (minDistance, closestIndex) =
     closest_forEach S cameraPos n rest (i + 1)
       (if i < n then
          (let worldPos = getWorldPosition S child;
               distance = distanceTo S worldPos cameraPos
           in if less_minDistance distance minDistance
              then (Some distance, i)
              else (minDistance, closestIndex))
        else (minDistance, closestIndex))"

text \<open>
  The distance the loop compares: from the world position of a child to the camera.
\<close>

definition cameraDistance :: "three_scene \<Rightarrow> Vector3 \<Rightarrow> Object3D \<Rightarrow> real" where
  "cameraDistance S cameraPos child = distanceTo S (getWorldPosition S child) cameraPos"

text \<open>
  The callback itself. It returns the new value of the state cell \<open>closestPhotoIndex\<close>
  and the call of \<open>onClosestPhotoChange\<close> it makes, \<open>None\<close> when it makes none.
\<close>

definition Polaroids_useFrame ::
  "three_scene \<Rightarrow> bool \<Rightarrow> Group option \<Rightarrow> PhotoData list \<Rightarrow> string list \<Rightarrow>
   (photoUrl \<Rightarrow> 'e) option \<Rightarrow> Vector3 \<Rightarrow> nat \<Rightarrow> nat \<times> 'e option" where
  "Polaroids_useFrame S twoHandsDetected groupRef' photoData' uploadedPhotos
       onClosestPhotoChange cameraPos closestPhotoIndex =
     (if twoHandsDetected \<and> groupRef' \<noteq> None \<and> length photoData' > 0 then
        (let (minDistance, closestIndex) =
               closest_forEach S cameraPos (length photoData') (children (the groupRef')) 0
                 (None, 0)
         in (closestIndex,
             case onClosestPhotoChange of
               None \<Rightarrow> None
             | Some f \<Rightarrow> Some (f (array_get uploadedPhotos closestIndex))))
      else
        (closestPhotoIndex,
         case onClosestPhotoChange of
           None \<Rightarrow> None
         | Some f \<Rightarrow> Some (f Null)))"

text \<open>
  The element \<open>Experience\<close> (src/unnamed/part_000) renders:
  \<^verbatim>\<open><Polaroids mode={mode} uploadedPhotos={uploadedPhotos} twoHandsDetected={false} onPhotoClick={onPhotoClick} />\<close>.
  It fixes \<open>twoHandsDetected\<close> to \<open>false\<close> and passes no \<open>onClosestPhotoChange\<close>.
\<close>

definition Experience_Polaroids_useFrame ::
  "three_scene \<Rightarrow> Group option \<Rightarrow> string list \<Rightarrow> (nat \<Rightarrow> real) \<Rightarrow> Vector3 \<Rightarrow> nat \<Rightarrow>
   nat \<times> 'e option" where
  "Experience_Polaroids_useFrame S groupRef' uploadedPhotos random cameraPos closestPhotoIndex =
     Polaroids_useFrame S False groupRef' (photoData uploadedPhotos random) uploadedPhotos
       None cameraPos closestPhotoIndex"

section \<open>The application state and the photo modal (src/App.tsx)\<close>

definition DEFAULT_PHOTOS :: "string list" where
  "DEFAULT_PHOTOS =
     [''/photos/z7360734546167_92e3622f1ec1cdc5ced46906d6c7d0c4.jpg'',
      ''/photos/z7360734556376_a03660e9dd0311a54f35d7e4e105a9e5.jpg'',
      ''/photos/z7360734559888_2607fa1d666d0c2af1991db994c39d48.jpg'',
      ''/photos/z7360734570227_51887180340024d69a745bfb751047f7.jpg'',
      ''/photos/z7360734593516_ff4cb9a9d4f9bc14bd421215be9c268a.jpg'',
      ''/photos/z7360734600235_747c8adacb18625f5355c945c84ebafc.jpg'']"

text \<open>The three \<open>useState\<close> cells of \<open>App\<close>; \<open>selectedPhoto\<close> is \<open>None\<close> when \<open>null\<close>.\<close>

record App_state =
  mode :: TreeMode
  uploadedPhotos :: "string list"
  selectedPhoto :: "string option"

definition App_initial :: App_state where
  "App_initial = \<lparr>mode = initialMode, uploadedPhotos = DEFAULT_PHOTOS, selectedPhoto = None\<rparr>"

definition handlePhotosUpload :: "string list \<Rightarrow> App_state \<Rightarrow> App_state" where
  "handlePhotosUpload photos s = s\<lparr>uploadedPhotos := photos\<rparr>"

definition handlePhotoClick :: "string \<Rightarrow> App_state \<Rightarrow> App_state" where
  "handlePhotoClick photoUrl s = s\<lparr>selectedPhoto := Some photoUrl\<rparr>"

definition closePhotoPopup :: "App_state \<Rightarrow> App_state" where
  "closePhotoPopup s = s\<lparr>selectedPhoto := None\<rparr>"

text \<open>
  A click on a polaroid of the scene: \<open>App\<close> passes \<open>handlePhotoClick\<close> as
  \<open>onPhotoClick\<close> through \<open>Experience\<close> and \<open>Polaroids\<close> to every item, whose
  \<open>handleClick\<close> decides whether it is called.
\<close>

definition polaroid_click :: "PolaroidItem_state \<Rightarrow> PhotoData \<Rightarrow> App_state \<Rightarrow> App_state" where
  "polaroid_click item data s =
     (case handleClick (Some handlePhotoClick) item data of
        None \<Rightarrow> s
      | Some update \<Rightarrow> update s)"

text \<open>
  \<^verbatim>\<open>{selectedPhoto && ( <div ...> ... <img src={selectedPhoto} /> ... </div> )}\<close>:
  the modal is rendered when \<open>selectedPhoto\<close> is truthy, which for a \<open>string | null\<close>
  means neither \<open>null\<close> nor the empty string. The result is the \<open>src\<close> of the image the
  modal shows, \<open>None\<close> when no modal is rendered.
\<close>

definition truthy :: "string option \<Rightarrow> bool" where
  "truthy v = (case v of None \<Rightarrow> False | Some str \<Rightarrow> str \<noteq> [])"

definition App_modal :: "App_state \<Rightarrow> string option" where
  "App_modal s = (if truthy (selectedPhoto s) then selectedPhoto s else None)"

text \<open>
  The places of the modal a click can land on. The backdrop and the close button call
  \<open>closePhotoPopup\<close>; the frame in between stops the propagation and does nothing else
  (so a click on the button, which is inside the frame, closes once).
\<close>

datatype modal_target = Backdrop | Frame | CloseButton

definition modal_click :: "modal_target \<Rightarrow> App_state \<Rightarrow> App_state" where
  "modal_click target s =
     (case target of
        Backdrop \<Rightarrow> closePhotoPopup s
      | Frame \<Rightarrow> s
      | CloseButton \<Rightarrow> closePhotoPopup s)"

section \<open>Properties\<close>

subsection \<open>The layout loop in closed form\<close>

text \<open>
  The loop appends one entry per index, from \<open>i\<close> up to the length of the list, and
  iteration \<open>j\<close> starts after \<open>3 * (j - i)\<close> further draws.
\<close>

lemma photoData_loop_eq:
  "i \<le> length ups \<Longrightarrow>
   photoData_loop ups rnd i k acc =
     acc @ map (\<lambda>j. photoData_entry ups rnd j (k + 3 * (j - i))) [i..<length ups]"
proof (induction ups rnd i k acc rule: photoData_loop.induct)
  case (1 ups rnd i k acc)
  show ?case
  proof (cases "i < length ups")
    case True
    have step: "photoData_loop ups rnd i k acc =
        photoData_loop ups rnd (i + 1) (k + 3) (acc @ [photoData_entry ups rnd i k])"
      using True by (subst photoData_loop.simps) simp
    have ih: "photoData_loop ups rnd (i + 1) (k + 3) (acc @ [photoData_entry ups rnd i k]) =
        (acc @ [photoData_entry ups rnd i k]) @
          map (\<lambda>j. photoData_entry ups rnd j (k + 3 + 3 * (j - (i + 1)))) [i + 1..<length ups]"
      using "1.IH" [OF True] True by simp
    have m: "map (\<lambda>j. photoData_entry ups rnd j (k + 3 + 3 * (j - (i + 1)))) [i + 1..<length ups]
        = map (\<lambda>j. photoData_entry ups rnd j (k + 3 * (j - i))) [i + 1..<length ups]"
    proof (rule map_cong)
      fix j assume "j \<in> set [i + 1..<length ups]"
      then have e: "k + 3 + 3 * (j - (i + 1)) = k + 3 * (j - i)" by auto
      show "photoData_entry ups rnd j (k + 3 + 3 * (j - (i + 1))) =
                 photoData_entry ups rnd j (k + 3 * (j - i))" by (simp only: e)
    qed simp
    have u: "[i..<length ups] = i # [i + 1..<length ups]"
      using True by (simp add: upt_conv_Cons)
    show ?thesis
      unfolding step ih m u by simp
  next
    case False
    with "1.prems" have "i = length ups" by simp
    then show ?thesis by (subst photoData_loop.simps) simp
  qed
qed

lemma photoData_eq:
  "photoData ups rnd = map (\<lambda>j. photoData_entry ups rnd j (3 * j)) [0..<length ups]"
  by (simp add: photoData_def photoData_loop_eq)

lemma photoData_length: "length (photoData ups rnd) = length ups"
  by (simp add: photoData_eq)

lemma photoData_nth:
  "i < length ups \<Longrightarrow> photoData ups rnd ! i = photoData_entry ups rnd i (3 * i)"
  by (simp add: photoData_eq)

subsection \<open>The photo layout\<close>

text \<open>
  Claim C8. An empty photo list gives an empty photo-data list and no rendered item. A
  list of length \<open>n\<close> gives exactly \<open>n\<close> entries in order, entry \<open>i\<close> having id \<open>i\<close>
  and the \<open>i\<close>-th uploaded URL, and \<open>Polaroids\<close> renders exactly one \<open>PolaroidItem\<close>
  per entry, in order, with key and index \<open>i\<close>.
\<close>

theorem photoData_entries:
  "photoData [] random = []
   \<and> Polaroids_render (photoData [] random) m cb = []
   \<and> length (photoData photos random) = length photos
   \<and> (\<forall>i < length photos.
         photo_id (photoData photos random ! i) = i
       \<and> url (photoData photos random ! i) = photos ! i)
   \<and> Polaroids_render (photoData photos random) m cb =
       map (\<lambda>i. PolaroidItem i i (photoData photos random ! i) m cb) [0..<length photos]"
proof -
  have e: "photoData [] random = []"
    by (simp add: photoData_def)
  have r: "Polaroids_render (photoData [] random) m cb = []"
    by (simp add: e Polaroids_render_def)
  have f: "\<forall>i < length photos.
         photo_id (photoData photos random ! i) = i
       \<and> url (photoData photos random ! i) = photos ! i"
    by (simp add: photoData_nth photoData_entry_def Let_def)
  have z: "zip xs [0..<length xs] = map (\<lambda>i. (xs ! i, i)) [0..<length xs]" for xs :: "PhotoData list"
    by (rule nth_equalityI) simp_all
  have p: "Polaroids_render (photoData photos random) m cb =
       map (\<lambda>i. PolaroidItem i i (photoData photos random ! i) m cb) [0..<length photos]"
    unfolding Polaroids_render_def z by (simp add: photoData_length)
  from e r f p photoData_length [of photos random] show ?thesis by blast
qed

theorem photoData_entries_witness:
  "length (photoData [''a.jpg'', ''b.jpg''] (\<lambda>k. 0)) = 2
   \<and> photo_id (photoData [''a.jpg'', ''b.jpg''] (\<lambda>k. 0) ! 1) = 1
   \<and> url (photoData [''a.jpg'', ''b.jpg''] (\<lambda>k. 0) ! 1) = ''b.jpg''
   \<and> length (Polaroids_render (photoData [''a.jpg'', ''b.jpg''] (\<lambda>k. 0)) FORMED
         (None :: (string \<Rightarrow> unit) option)) = 2"
proof -
  note t = photoData_entries [where photos = "[''a.jpg'', ''b.jpg'']" and random = "\<lambda>k. 0"
      and m = FORMED and cb = "None :: (string \<Rightarrow> unit) option"]
  from t have l: "length (photoData [''a.jpg'', ''b.jpg''] (\<lambda>k. 0)) = 2"
    by simp
  from t have "\<forall>i < length [''a.jpg'', ''b.jpg''].
      photo_id (photoData [''a.jpg'', ''b.jpg''] (\<lambda>k. 0) ! i) = i
    \<and> url (photoData [''a.jpg'', ''b.jpg''] (\<lambda>k. 0) ! i) = [''a.jpg'', ''b.jpg''] ! i"
    by blast
  then have e: "photo_id (photoData [''a.jpg'', ''b.jpg''] (\<lambda>k. 0) ! 1) = 1
    \<and> url (photoData [''a.jpg'', ''b.jpg''] (\<lambda>k. 0) ! 1) = ''b.jpg''"
    by simp
  from t have "Polaroids_render (photoData [''a.jpg'', ''b.jpg''] (\<lambda>k. 0)) FORMED
         (None :: (string \<Rightarrow> unit) option) =
       map (\<lambda>i. PolaroidItem i i (photoData [''a.jpg'', ''b.jpg''] (\<lambda>k. 0) ! i) FORMED None)
         [0..<length [''a.jpg'', ''b.jpg'']]"
    by blast
  then have r: "length (Polaroids_render (photoData [''a.jpg'', ''b.jpg''] (\<lambda>k. 0)) FORMED
         (None :: (string \<Rightarrow> unit) option)) = 2"
    by simp
  from l e r show ?thesis by blast
qed

lemma photoData_entry_targetPos:
  "targetPos (photoData_entry photos random i k) =
     \<lparr>vx = (5.0 * (1 - (0.2 + (real i / real (length photos)) * 0.6)) + 0.8) * cos (real i * 2.39996),
      vy = 9 * (0.2 + (real i / real (length photos)) * 0.6),
      vz = (5.0 * (1 - (0.2 + (real i / real (length photos)) * 0.6)) + 0.8) * sin (real i * 2.39996)\<rparr>"
  by (simp add: photoData_entry_def Let_def)

text \<open>
  Claim C1. For a photo list of length \<open>n\<close> and an index \<open>i < n\<close>, the formed-tree
  target of photo \<open>i\<close> is \<open>(r cos theta, y, r sin theta)\<close> with \<open>theta = i * 2.39996\<close>,
  \<open>yNorm = 0.2 + (i / n) * 0.6\<close>, \<open>y = 9 * yNorm\<close> and \<open>r = 5.0 * (1 - yNorm) + 0.8\<close>.
  So \<open>yNorm\<close> lies in \<open>[0.2, 0.8)\<close> and \<open>r\<close> is above \<open>0.8\<close>; the point lies at
  distance \<open>r\<close> from the axis, and \<open>r\<close> is the affine, decreasing function
  \<open>5.8 - (5 / 9) * y\<close> of its height (a cone); and the next photo, when there is one, sits
  at the angle \<open>theta + 2.39996\<close>, the golden angle further on.
\<close>

theorem photoData_targetPos:
  assumes "i < length photos"
  shows "let n = real (length photos);
             theta = real i * 2.39996;
             yNorm = 0.2 + (real i / n) * 0.6;
             y = 9 * yNorm;
             r = 5.0 * (1 - yNorm) + 0.8;
             p = targetPos (photoData photos random ! i)
         in p = \<lparr>vx = r * cos theta, vy = y, vz = r * sin theta\<rparr>
          \<and> 0.2 \<le> yNorm \<and> yNorm < 0.8 \<and> 0.8 < r
          \<and> r = 5.8 - (5 / 9) * vy p
          \<and> (vx p)\<^sup>2 + (vz p)\<^sup>2 = r\<^sup>2
          \<and> (Suc i < length photos \<longrightarrow>
                (let yNorm' = 0.2 + (real (Suc i) / n) * 0.6;
                     r' = 5.0 * (1 - yNorm') + 0.8
                 in targetPos (photoData photos random ! Suc i) =
                      \<lparr>vx = r' * cos (theta + 2.39996), vy = 9 * yNorm',
                       vz = r' * sin (theta + 2.39996)\<rparr>))"
proof -
  define q where "q = real i / real (length photos)"
  define r where "r = 5.0 * (1 - (0.2 + q * 0.6)) + 0.8"
  define theta where "theta = real i * 2.39996"
  have n: "0 < real (length photos)" using assms by (cases photos) simp_all
  have q0: "0 \<le> q" by (simp add: q_def)
  have q1: "q < 1" using assms n by (simp add: q_def)
  have t: "targetPos (photoData photos random ! i) =
     \<lparr>vx = r * cos theta, vy = 9 * (0.2 + q * 0.6), vz = r * sin theta\<rparr>"
    using assms by (simp add: photoData_nth photoData_entry_targetPos q_def r_def theta_def)
  have b: "0.2 \<le> 0.2 + q * 0.6" "0.2 + q * 0.6 < 0.8" "0.8 < r"
    using q0 q1 by (simp_all add: r_def)
  have a: "r = 5.8 - (5 / 9) * (9 * (0.2 + q * 0.6))"
    by (simp add: r_def field_simps)
  have "(r * cos theta)\<^sup>2 + (r * sin theta)\<^sup>2 = r\<^sup>2 * ((sin theta)\<^sup>2 + (cos theta)\<^sup>2)"
    by (simp only: power_mult_distrib distrib_left add.commute)
  then have c: "(r * cos theta)\<^sup>2 + (r * sin theta)\<^sup>2 = r\<^sup>2"
    by (simp only: sin_cos_squared_add mult_1_right)
  have g: "real (Suc i) * 2.39996 = theta + 2.39996"
    by (simp add: theta_def algebra_simps)
  have s: "Suc i < length photos \<longrightarrow>
      targetPos (photoData photos random ! Suc i) =
        \<lparr>vx = (5.0 * (1 - (0.2 + (real (Suc i) / real (length photos)) * 0.6)) + 0.8)
                * cos (theta + 2.39996),
         vy = 9 * (0.2 + (real (Suc i) / real (length photos)) * 0.6),
         vz = (5.0 * (1 - (0.2 + (real (Suc i) / real (length photos)) * 0.6)) + 0.8)
                * sin (theta + 2.39996)\<rparr>"
  proof
    assume h: "Suc i < length photos"
    show "targetPos (photoData photos random ! Suc i) =
        \<lparr>vx = (5.0 * (1 - (0.2 + (real (Suc i) / real (length photos)) * 0.6)) + 0.8)
                * cos (theta + 2.39996),
         vy = 9 * (0.2 + (real (Suc i) / real (length photos)) * 0.6),
         vz = (5.0 * (1 - (0.2 + (real (Suc i) / real (length photos)) * 0.6)) + 0.8)
                * sin (theta + 2.39996)\<rparr>"
      unfolding g [symmetric]
      by (simp add: photoData_nth [OF h] photoData_entry_targetPos)
  qed
  show ?thesis
    unfolding Let_def t q_def [symmetric] r_def [symmetric] theta_def [symmetric]
    using b a c s by simp
qed

theorem photoData_targetPos_witness:
  "(0::nat) < length [''a.jpg'', ''b.jpg''] \<and> Suc 0 < length [''a.jpg'', ''b.jpg'']
   \<and> targetPos (photoData [''a.jpg'', ''b.jpg''] (\<lambda>k. 0) ! 0) = \<lparr>vx = 4.8, vy = 1.8, vz = 0\<rparr>
   \<and> targetPos (photoData [''a.jpg'', ''b.jpg''] (\<lambda>k. 0) ! Suc 0) =
       \<lparr>vx = 3.3 * cos 2.39996, vy = 4.5, vz = 3.3 * sin 2.39996\<rparr>"
  using photoData_targetPos [of 0 "[''a.jpg'', ''b.jpg'']" "\<lambda>k. 0"]
  by (simp add: Let_def)

subsection \<open>Rounding to doubles\<close>

lemma round_half_even_near: "\<bar>real_of_int (round_half_even y) - y\<bar> \<le> 1 / 2"
proof -
  have r: "\<bar>real_of_int (round y) - y\<bar> \<le> 1 / 2"
    by (rule of_int_round_abs_le)
  show ?thesis
  proof (cases "real_of_int (round y) - y = 1 / 2 \<and> odd (round y)")
    case True
    then have "round_half_even y = round y - 1"
      by (simp add: round_half_even_def Let_def)
    with True show ?thesis by simp
  next
    case False
    then have "round_half_even y = round y"
      by (auto simp add: round_half_even_def Let_def)
    with r show ?thesis by simp
  qed
qed

lemma round_half_even_mono:
  assumes "x \<le> y"
  shows "round_half_even x \<le> round_half_even y"
proof (rule ccontr)
  assume "\<not> round_half_even x \<le> round_half_even y"
  then have "round_half_even y + 1 \<le> round_half_even x" by simp
  then have g: "real_of_int (round_half_even y) + 1 \<le> real_of_int (round_half_even x)"
    by linarith
  have a: "real_of_int (round_half_even x) \<le> x + 1 / 2"
    using round_half_even_near [of x] by linarith
  have b: "y - 1 / 2 \<le> real_of_int (round_half_even y)"
    using round_half_even_near [of y] by linarith
  from g a b assms have "x = y" by linarith
  then have "round_half_even x = round_half_even y" by simp
  with \<open>\<not> round_half_even x \<le> round_half_even y\<close> show False by simp
qed

lemma round_half_even_of_int: "round_half_even (real_of_int k) = k"
  by (simp add: round_half_even_def Let_def)

lemma log2_binade:
  assumes "0 < x"
  shows "2 powr real_of_int \<lfloor>log 2 x\<rfloor> \<le> x" and "x < 2 powr (real_of_int \<lfloor>log 2 x\<rfloor> + 1)"
proof -
  have a: "real_of_int \<lfloor>log 2 x\<rfloor> \<le> log 2 x" by (rule of_int_floor_le)
  have o: "(1::real) < 2" by simp
  show "2 powr real_of_int \<lfloor>log 2 x\<rfloor> \<le> x"
    by (rule iffD1 [OF le_log_iff [OF o assms] a])
  have b: "log 2 x < real_of_int \<lfloor>log 2 x\<rfloor> + 1" by linarith
  show "x < 2 powr (real_of_int \<lfloor>log 2 x\<rfloor> + 1)"
    by (rule iffD1 [OF log_less_iff [OF o assms] b])
qed

lemma floor_log2_eq:
  assumes "2 powr real_of_int k \<le> x" and "x < 2 powr (real_of_int k + 1)"
  shows "\<lfloor>log 2 x\<rfloor> = k"
proof -
  have "(0::real) < 2 powr real_of_int k" by simp
  with assms(1) have p: "0 < x" by linarith
  have o: "(1::real) < 2" by simp
  have a: "real_of_int k \<le> log 2 x"
    by (rule iffD2 [OF le_log_iff [OF o p] assms(1)])
  have b: "log 2 x < real_of_int k + 1"
    by (rule iffD2 [OF log_less_iff [OF o p] assms(2)])
  from a b show ?thesis by linarith
qed

text \<open>Rounding to the grid of step \<open>2 powr e\<close>.\<close>

lemma grid_mono:
  assumes "x \<le> y"
  shows "2 powr e * real_of_int (round_half_even (x / 2 powr e))
       \<le> 2 powr e * real_of_int (round_half_even (y / 2 powr e))"
proof -
  have "x / 2 powr e \<le> y / 2 powr e"
    using assms by (simp add: divide_right_mono)
  then have "round_half_even (x / 2 powr e) \<le> round_half_even (y / 2 powr e)"
    by (rule round_half_even_mono)
  then show ?thesis
    by (simp add: mult_left_mono)
qed

lemma grid_fix:
  "2 powr e * real_of_int (round_half_even (2 powr e * real_of_int k / 2 powr e))
     = 2 powr e * real_of_int k"
  by (simp add: round_half_even_of_int)

lemma grid_fix_powr:
  assumes "e \<le> k"
  shows "2 powr real_of_int e * real_of_int (round_half_even (2 powr real_of_int k / 2 powr real_of_int e))
     = 2 powr real_of_int k"
proof -
  have "2 powr real_of_int k = 2 powr real_of_int e * 2 powr real_of_int (k - e)"
    by (simp add: powr_add [symmetric])
  also have "2 powr real_of_int (k - e) = real_of_int (2 ^ nat (k - e))"
    using assms by (simp add: powr_realpow [symmetric])
  finally have k: "2 powr real_of_int k = 2 powr real_of_int e * real_of_int (2 ^ nat (k - e))" .
  show ?thesis
    unfolding k by (rule grid_fix)
qed


lemma double_round_pos_mono:
  assumes "0 < x" and "x \<le> y"
  shows "double_round_pos x \<le> double_round_pos y"
proof -
  define Ex where "Ex = \<lfloor>log 2 x\<rfloor>"
  define Ey where "Ey = \<lfloor>log 2 y\<rfloor>"
  define sx where "sx = max Ex (- 1022) - 52"
  define sy where "sy = max Ey (- 1022) - 52"
  have y: "0 < y" using assms by simp
  have dx: "double_round_pos x =
      2 powr real_of_int sx * real_of_int (round_half_even (x / 2 powr real_of_int sx))"
    by (simp add: double_round_pos_def Let_def sx_def Ex_def)
  have dy: "double_round_pos y =
      2 powr real_of_int sy * real_of_int (round_half_even (y / 2 powr real_of_int sy))"
    by (simp add: double_round_pos_def Let_def sy_def Ey_def)
  have "log 2 x \<le> log 2 y" using assms by simp
  then have E: "Ex \<le> Ey" unfolding Ex_def Ey_def by (rule floor_mono)
  then have e: "sx \<le> sy" by (simp add: sx_def sy_def)
  show ?thesis
  proof (cases "sx = sy")
    case True
    then show ?thesis unfolding dx dy using grid_mono [OF assms(2)] by simp
  next
    case False
    with e have lt: "sx < sy" by simp
    then have EE: "max Ex (- 1022) < Ey" by (simp add: sx_def sy_def max_def split: if_splits)
    then have sy': "sy = Ey - 52" by (simp add: sy_def)
    have xE: "x < 2 powr (real_of_int Ex + 1)"
      unfolding Ex_def by (rule log2_binade(2) [OF assms(1)])
    have "real_of_int Ex + 1 \<le> real_of_int Ey" using EE by simp
    then have "(2::real) powr (real_of_int Ex + 1) \<le> 2 powr real_of_int Ey"
      by (simp add: powr_mono)
    with xE have x2: "x \<le> 2 powr real_of_int Ey" by linarith
    have y2: "2 powr real_of_int Ey \<le> y"
      unfolding Ey_def by (rule log2_binade(1) [OF y])
    have "sx \<le> Ey" using lt sy' by simp
    have "double_round_pos x \<le>
        2 powr real_of_int sx * real_of_int (round_half_even (2 powr real_of_int Ey / 2 powr real_of_int sx))"
      unfolding dx by (rule grid_mono [OF x2])
    also have "\<dots> = 2 powr real_of_int Ey"
      by (rule grid_fix_powr [OF \<open>sx \<le> Ey\<close>])
    also have "\<dots> =
        2 powr real_of_int sy * real_of_int (round_half_even (2 powr real_of_int Ey / 2 powr real_of_int sy))"
      by (rule grid_fix_powr [symmetric]) (simp add: sy')
    also have "\<dots> \<le> double_round_pos y"
      unfolding dy by (rule grid_mono [OF y2])
    finally show ?thesis .
  qed
qed

lemma double_round_pos_nonneg:
  assumes "0 < x"
  shows "0 \<le> double_round_pos x"
proof -
  have "round_half_even 0 \<le> round_half_even (x / 2 powr real_of_int (max \<lfloor>log 2 x\<rfloor> (- 1022) - 52))"
    using assms by (intro round_half_even_mono) simp
  moreover have "round_half_even 0 = 0"
    using round_half_even_of_int [of 0] by simp
  ultimately show ?thesis
    by (simp add: double_round_pos_def Let_def)
qed

lemma double_round_mono:
  assumes "x \<le> y"
  shows "double_round x \<le> double_round y"
proof -
  consider "0 < x" | "y < 0" | "x \<le> 0" "0 \<le> y" by linarith
  then show ?thesis
  proof cases
    case 1
    with assms show ?thesis
      by (simp add: double_round_def double_round_pos_mono)
  next
    case 2
    then have "0 < - y" "- y \<le> - x" using assms by simp_all
    then have "double_round_pos (- y) \<le> double_round_pos (- x)"
      by (rule double_round_pos_mono)
    with 2 assms show ?thesis
      by (simp add: double_round_def)
  next
    case 3
    have "double_round x \<le> 0"
      using 3(1) double_round_pos_nonneg [of "- x"] by (simp add: double_round_def)
    moreover have "0 \<le> double_round y"
      using 3(2) double_round_pos_nonneg [of y] by (simp add: double_round_def)
    ultimately show ?thesis by linarith
  qed
qed


lemma double_round_binade:
  assumes "2 powr real_of_int k \<le> x" and "x < 2 powr (real_of_int k + 1)" and "- 1022 \<le> k"
  shows "double_round x =
    2 powr real_of_int (k - 52) * real_of_int (round_half_even (x / 2 powr real_of_int (k - 52)))"
proof -
  have "(0::real) < 2 powr real_of_int k" by simp
  with assms(1) have p: "0 < x" by linarith
  have E: "\<lfloor>log 2 x\<rfloor> = k" by (rule floor_log2_eq [OF assms(1,2)])
  have m: "max k (- 1022) = k" using assms(3) by simp
  show ?thesis
    using p by (simp add: double_round_def double_round_pos_def Let_def E m)
qed

lemma double_round_pos_half_int:
  assumes "0 < m" and "m \<le> 64"
  shows "double_round_pos (real_of_int m / 2) = real_of_int m / 2"
proof -
  define x where "x = real_of_int m / 2"
  define E where "E = \<lfloor>log 2 x\<rfloor>"
  have p: "0 < x" using assms(1) by (simp add: x_def)
  have lo: "2 powr (- 1) \<le> x"
  proof -
    have "(2::real) powr (- 1) = 1 / 2" by (simp add: powr_minus_divide)
    moreover have "1 \<le> real_of_int m" using assms(1) by linarith
    ultimately show ?thesis by (simp add: x_def)
  qed
  have hi: "x \<le> 2 powr 5"
  proof -
    have "(2::real) powr 5 = 32" by simp
    moreover have "real_of_int m \<le> 64" using assms(2) by linarith
    ultimately show ?thesis by (simp add: x_def)
  qed
  have "2 powr (- 1) < 2 powr (real_of_int E + 1)"
    using lo log2_binade(2) [OF p] unfolding E_def by linarith
  then have "- 1 < real_of_int E + 1"
    by (rule iffD1 [OF powr_less_cancel_iff, rotated]) simp
  then have E1: "- 1 \<le> E" by linarith
  have "2 powr real_of_int E \<le> 2 powr 5"
    using hi log2_binade(1) [OF p] unfolding E_def by linarith
  then have "real_of_int E \<le> 5"
    by (rule iffD1 [OF powr_le_cancel_iff, rotated]) simp
  then have E5: "E \<le> 5" by linarith
  define e where "e = E - 52"
  have me: "max E (- 1022) - 52 = e" using E1 by (simp add: e_def)
  have n: "0 \<le> - 1 - e" using E5 by (simp add: e_def)
  have "2 powr real_of_int (- 1 - e) = real_of_int (2 ^ nat (- 1 - e))"
    using n by (simp add: powr_realpow [symmetric])
  moreover have "(2::real) powr real_of_int (- 1 - e) = 2 powr (- 1) / 2 powr real_of_int e"
    by (simp add: powr_diff)
  moreover have "(2::real) powr (- 1) = 1 / 2" by (simp add: powr_minus_divide)
  ultimately have q: "1 / 2 / 2 powr real_of_int e = real_of_int (2 ^ nat (- 1 - e))"
    by simp
  have "x / 2 powr real_of_int e = real_of_int m * (1 / 2 / 2 powr real_of_int e)"
    by (simp add: x_def)
  also have "\<dots> = real_of_int (m * 2 ^ nat (- 1 - e))"
    unfolding q by simp
  finally have i: "x / 2 powr real_of_int e = real_of_int (m * 2 ^ nat (- 1 - e))" .
  have "double_round_pos x =
      2 powr real_of_int e * real_of_int (round_half_even (x / 2 powr real_of_int e))"
    by (simp add: double_round_pos_def Let_def E_def [symmetric] me)
  also have "\<dots> = 2 powr real_of_int e * (x / 2 powr real_of_int e)"
    unfolding i round_half_even_of_int ..
  also have "\<dots> = x" by simp
  finally show ?thesis by (simp add: x_def)
qed

lemma double_round_half_int:
  assumes "\<bar>m\<bar> \<le> 64"
  shows "double_round (real_of_int m / 2) = real_of_int m / 2"
proof -
  consider "m = 0" | "0 < m" | "m < 0" by linarith
  then show ?thesis
  proof cases
    case 1
    then show ?thesis by (simp add: double_round_def)
  next
    case 2
    with assms have "m \<le> 64" by simp
    from double_round_pos_half_int [OF 2 this] 2 show ?thesis
      by (simp add: double_round_def)
  next
    case 3
    then have p: "0 < - m" by simp
    from assms 3 have "- m \<le> 64" by simp
    from double_round_pos_half_int [OF p this] 3 show ?thesis
      by (simp add: double_round_def)
  qed
qed

lemma rounding_double_round: "rounding double_round"
  unfolding rounding_def
  by (intro conjI allI impI double_round_mono double_round_half_int)

lemma rounding_exact: "rounding (\<lambda>x. x)"
  by (simp add: rounding_def)

lemma double_round_exact:
  assumes "2 powr real_of_int k \<le> x" and "x < 2 powr (real_of_int k + 1)" and "- 1022 \<le> k"
    and "x / 2 powr real_of_int (k - 52) = real_of_int N"
  shows "double_round x = x"
proof -
  have "double_round x = 2 powr real_of_int (k - 52) * (x / 2 powr real_of_int (k - 52))"
    unfolding double_round_binade [OF assms(1-3)] assms(4) round_half_even_of_int
    by (simp only: assms(4))
  then show ?thesis by simp
qed

lemma double_round_tie_up:
  assumes "2 powr real_of_int k \<le> x" and "x < 2 powr (real_of_int k + 1)" and "- 1022 \<le> k"
    and "x / 2 powr real_of_int (k - 52) = real_of_int N - 1 / 2" and "even N"
  shows "double_round x = 2 powr real_of_int (k - 52) * real_of_int N"
proof -
  have "round (real_of_int N - 1 / 2) = N"
    by (simp add: round_def)
  then have "round_half_even (real_of_int N - 1 / 2) = N"
    using assms(5) by (simp add: round_half_even_def Let_def)
  then show ?thesis
    unfolding double_round_binade [OF assms(1-3)] assms(4) by simp
qed

lemma rounding_mono: "rounding fl \<Longrightarrow> x \<le> y \<Longrightarrow> fl x \<le> fl y"
  by (simp add: rounding_def)

lemma rounding_fix:
  "rounding fl \<Longrightarrow> \<bar>m\<bar> \<le> 64 \<Longrightarrow> fl (real_of_int m / 2) = real_of_int m / 2"
  by (simp add: rounding_def)

lemma rounding_between:
  assumes "rounding fl" and "\<bar>a\<bar> \<le> 64" and "\<bar>b\<bar> \<le> 64"
    and "real_of_int a / 2 \<le> x" and "x \<le> real_of_int b / 2"
  shows "real_of_int a / 2 \<le> fl x \<and> fl x \<le> real_of_int b / 2"
  using rounding_mono [OF assms(1) assms(4)] rounding_mono [OF assms(1) assms(5)]
    rounding_fix [OF assms(1,2)] rounding_fix [OF assms(1,3)]
  by simp

lemma chaosPos_rounded_bounds:
  assumes r: "rounding fl" and s: "\<forall>x. \<bar>Math_sin x\<bar> \<le> 1"
    and d1: "0 \<le> draw1" "draw1 < 1" and d2: "0 \<le> draw2" "draw2 < 1"
  shows "3 \<le> fl (3 + fl (draw1 * 4)) \<and> fl (3 + fl (draw1 * 4)) \<le> 7"
    and "1 \<le> vy (chaosPos_rounded fl Math_cos Math_sin count i draw1 draw2)"
    and "vy (chaosPos_rounded fl Math_cos Math_sin count i draw1 draw2) \<le> 9"
    and "12.5 \<le> vz (chaosPos_rounded fl Math_cos Math_sin count i draw1 draw2)"
    and "vz (chaosPos_rounded fl Math_cos Math_sin count i draw1 draw2) \<le> 19.5"
proof -
  define angle where "angle = fl (fl (fl (real i / real count) * fl pi) * 2)"
  define distance where "distance = fl (3 + fl (draw1 * 4))"
  define heightSpread where "heightSpread = fl (fl (draw2 - 0.5) * 8)"
  have a: "0 \<le> fl (draw1 * 4) \<and> fl (draw1 * 4) \<le> 4"
    using rounding_between [OF r, of 0 8 "draw1 * 4"] d1 by simp
  have b: "3 \<le> distance \<and> distance \<le> 7"
    unfolding distance_def
    using rounding_between [OF r, of 6 14 "3 + fl (draw1 * 4)"] a by simp
  from b show "3 \<le> fl (3 + fl (draw1 * 4)) \<and> fl (3 + fl (draw1 * 4)) \<le> 7"
    by (simp add: distance_def)
  have c: "- (1 / 2) \<le> fl (draw2 - 0.5) \<and> fl (draw2 - 0.5) \<le> 1 / 2"
    using rounding_between [OF r, of "- 1" 1 "draw2 - 0.5"] d2 by simp
  have h: "- 4 \<le> heightSpread \<and> heightSpread \<le> 4"
    unfolding heightSpread_def
    using rounding_between [OF r, of "- 8" 8 "fl (draw2 - 0.5) * 8"] c by simp
  have y: "1 \<le> fl (5 + heightSpread) \<and> fl (5 + heightSpread) \<le> 9"
    using rounding_between [OF r, of 2 18 "5 + heightSpread"] h by simp
  have "\<bar>distance * Math_sin angle\<bar> = distance * \<bar>Math_sin angle\<bar>"
    using b by (simp add: abs_mult)
  also have "\<dots> \<le> distance * 1"
    using b s by (intro mult_left_mono) simp_all
  finally have "\<bar>distance * Math_sin angle\<bar> \<le> 7"
    using b by simp
  then have p: "- 7 \<le> distance * Math_sin angle \<and> distance * Math_sin angle \<le> 7"
    by linarith
  have p': "- 7 \<le> fl (distance * Math_sin angle) \<and> fl (distance * Math_sin angle) \<le> 7"
    using rounding_between [OF r, of "- 14" 14 "distance * Math_sin angle"] p by simp
  have q: "- (7 / 2) \<le> fl (fl (distance * Math_sin angle) * 0.5)
         \<and> fl (fl (distance * Math_sin angle) * 0.5) \<le> 7 / 2"
    using rounding_between [OF r, of "- 7" 7 "fl (distance * Math_sin angle) * 0.5"] p' by simp
  have f16: "fl (20 - 4) = 16"
    using rounding_fix [OF r, of 32] by simp
  have z: "25 / 2 \<le> fl (16 + fl (fl (distance * Math_sin angle) * 0.5))
         \<and> fl (16 + fl (fl (distance * Math_sin angle) * 0.5)) \<le> 39 / 2"
    using rounding_between [OF r, of 25 39 "16 + fl (fl (distance * Math_sin angle) * 0.5)"] q
    by simp
  have vy: "vy (chaosPos_rounded fl Math_cos Math_sin count i draw1 draw2) = fl (5 + heightSpread)"
    by (simp add: chaosPos_rounded_def Let_def heightSpread_def)
  have vz: "vz (chaosPos_rounded fl Math_cos Math_sin count i draw1 draw2) =
      fl (fl (20 - 4) + fl (fl (distance * Math_sin angle) * 0.5))"
    by (simp add: chaosPos_rounded_def Let_def distance_def angle_def)
  from y show "1 \<le> vy (chaosPos_rounded fl Math_cos Math_sin count i draw1 draw2)"
    and "vy (chaosPos_rounded fl Math_cos Math_sin count i draw1 draw2) \<le> 9"
    unfolding vy by simp_all
  from z show "12.5 \<le> vz (chaosPos_rounded fl Math_cos Math_sin count i draw1 draw2)"
    and "vz (chaosPos_rounded fl Math_cos Math_sin count i draw1 draw2) \<le> 19.5"
    unfolding vz f16 by simp_all
qed

lemma chaosPos_rounded_exact:
  "chaosPos_rounded (\<lambda>x. x) cos sin (length photos) i (random k) (random (k + 1)) =
     chaosPos (photoData_entry photos random i k)"
  by (simp add: chaosPos_rounded_def photoData_entry_def Let_def)

lemma double_round_draw:
  "double_round (1 - 1 / 2 ^ 53) = 1 - 1 / 2 ^ 53"
  by (rule double_round_exact [of "- 1" _ "2 ^ 53 - 1"]) (simp_all add: powr_minus_divide)

lemma double_round_distance_edge:
  "double_round (3 + double_round ((1 - 1 / 2 ^ 53) * 4)) = 7"
proof -
  have a: "double_round ((1 - 1 / 2 ^ 53) * 4) = (1 - 1 / 2 ^ 53) * 4"
    by (rule double_round_exact [of 1 _ "2 ^ 53 - 1"]) (simp_all add: powr_minus_divide)
  have "double_round (3 + (1 - 1 / 2 ^ 53) * 4) = 2 powr real_of_int (2 - 52) * real_of_int (7 * 2 ^ 50)"
    by (rule double_round_tie_up) (simp_all add: powr_minus_divide)
  then show ?thesis
    unfolding a by (simp add: powr_minus_divide)
qed

lemma double_round_height_edge:
  "double_round (5 + double_round (double_round (1 - 1 / 2 ^ 53 - 0.5) * 8)) = 9"
proof -
  have a: "double_round (1 - 1 / 2 ^ 53 - 0.5) = 1 - 1 / 2 ^ 53 - 0.5"
    by (rule double_round_exact [of "- 2" _ "2 ^ 53 - 2"]) (simp_all add: powr_minus_divide)
  have b: "double_round ((1 - 1 / 2 ^ 53 - 0.5) * 8) = (1 - 1 / 2 ^ 53 - 0.5) * 8"
    by (rule double_round_exact [of 1 _ "2 ^ 53 - 2"]) (simp_all add: powr_minus_divide)
  have "double_round (5 + (1 - 1 / 2 ^ 53 - 0.5) * 8) = 2 powr real_of_int (3 - 52) * real_of_int (9 * 2 ^ 49)"
    by (rule double_round_tie_up) (simp_all add: powr_minus_divide)
  then show ?thesis
    unfolding a b by (simp add: powr_minus_divide)
qed

subsection \<open>The chaos position\<close>

text \<open>
  Claim C6, as amended. For a photo list of length \<open>n\<close>, an index \<open>i < n\<close> and draws in
  \<open>[0, 1)\<close>, the chaos position of photo \<open>i\<close> has planar angle \<open>(i / n) * 2 * pi\<close>,
  \<open>x = distance * cos angle * 1.2\<close> with \<open>distance = 3 + draw * 4\<close> in the closed
  interval \<open>[3, 7]\<close>, \<open>y\<close> in the closed interval \<open>[1, 9]\<close>, and
  \<open>z = 16 + distance * sin angle * 0.5\<close>, which lies between \<open>12.5\<close> and \<open>19.5\<close>, the
  ends included. The distance is drawn first in each iteration, the height second. The
  bounds hold in exact arithmetic, which is the position with no rounding, and they hold
  with every operation rounded, for every rounding function and every sine with values
  in \<open>[-1, 1]\<close>.
\<close>

theorem photoData_chaosPos:
  assumes "i < length photos" and "unit_draws random"
    and "rounding fl" and "\<forall>x. \<bar>Math_sin x\<bar> \<le> 1"
  shows "let n = real (length photos);
             angle = (real i / n) * 2 * pi;
             draw1 = random (3 * i);
             draw2 = random (3 * i + 1);
             distance = 3 + draw1 * 4;
             c = chaosPos (photoData photos random ! i);
             distance' = fl (3 + fl (draw1 * 4));
             c' = chaosPos_rounded fl Math_cos Math_sin (length photos) i draw1 draw2
         in c = chaosPos_rounded (\<lambda>x. x) cos sin (length photos) i draw1 draw2
          \<and> vx c = distance * cos angle * 1.2
          \<and> vz c = 16 + distance * sin angle * 0.5
          \<and> 3 \<le> distance \<and> distance \<le> 7
          \<and> 1 \<le> vy c \<and> vy c \<le> 9
          \<and> 12.5 \<le> vz c \<and> vz c \<le> 19.5
          \<and> 3 \<le> distance' \<and> distance' \<le> 7
          \<and> 1 \<le> vy c' \<and> vy c' \<le> 9
          \<and> 12.5 \<le> vz c' \<and> vz c' \<le> 19.5"
proof -
  define draw1 where "draw1 = random (3 * i)"
  define draw2 where "draw2 = random (3 * i + 1)"
  define c where "c = chaosPos (photoData photos random ! i)"
  define angle where "angle = (real i / real (length photos)) * pi * 2"
  have a: "(real i / real (length photos)) * 2 * pi = angle"
    by (simp add: angle_def)
  have d1: "0 \<le> draw1" "draw1 < 1" and d2: "0 \<le> draw2" "draw2 < 1"
    using assms(2) by (simp_all add: unit_draws_def draw1_def draw2_def)
  have e: "c = chaosPos_rounded (\<lambda>x. x) cos sin (length photos) i draw1 draw2"
    unfolding c_def draw1_def draw2_def photoData_nth [OF assms(1)]
    by (rule chaosPos_rounded_exact [symmetric])
  have x: "vx c = (3 + draw1 * 4) * cos angle * 1.2"
    and z: "vz c = 16 + (3 + draw1 * 4) * sin angle * 0.5"
    unfolding e by (simp_all add: chaosPos_rounded_def Let_def angle_def)
  have s: "\<forall>x. \<bar>sin x\<bar> \<le> (1::real)" by simp
  note ex = chaosPos_rounded_bounds(2-5) [OF rounding_exact s d1 d2,
      where Math_cos = cos and count = "length photos" and i = i, folded e]
  note ro = chaosPos_rounded_bounds(2-5) [OF assms(3,4) d1 d2,
      where Math_cos = Math_cos and count = "length photos" and i = i]
  have dx: "3 \<le> 3 + draw1 * 4 \<and> 3 + draw1 * 4 \<le> 7"
    using d1 by simp
  note dr = chaosPos_rounded_bounds(1) [OF assms(3,4) d1 d2]
  show ?thesis
    unfolding Let_def a draw1_def [symmetric] draw2_def [symmetric] c_def [symmetric]
    using e x z ex ro dx dr by (intro conjI) simp_all
qed

theorem photoData_chaosPos_witness:
  "(1::nat) < length [''a.jpg'', ''b.jpg'']
   \<and> unit_draws (\<lambda>k. 1 - 1 / 2 ^ 53)
   \<and> rounding double_round
   \<and> (\<forall>x. \<bar>double_round (sin x)\<bar> \<le> 1)
   \<and> double_round (3 + double_round ((1 - 1 / 2 ^ 53) * 4)) \<le> 7
   \<and> vy (chaosPos_rounded double_round (\<lambda>x. double_round (cos x)) (\<lambda>x. double_round (sin x))
         (length [''a.jpg'', ''b.jpg'']) 1 (1 - 1 / 2 ^ 53) (1 - 1 / 2 ^ 53)) \<le> 9
   \<and> vz (chaosPos_rounded double_round (\<lambda>x. double_round (cos x)) (\<lambda>x. double_round (sin x))
         (length [''a.jpg'', ''b.jpg'']) 1 (1 - 1 / 2 ^ 53) (1 - 1 / 2 ^ 53)) \<le> 19.5"
proof -
  have l: "(1::nat) < length [''a.jpg'', ''b.jpg'']" by simp
  have u: "unit_draws (\<lambda>k. 1 - 1 / 2 ^ 53)" by (simp add: unit_draws_def)
  have s: "\<forall>x. \<bar>double_round (sin x)\<bar> \<le> 1"
  proof
    fix x :: real
    have "- 1 \<le> sin x \<and> sin x \<le> 1" by simp
    then have "- 1 \<le> double_round (sin x) \<and> double_round (sin x) \<le> 1"
      using rounding_between [OF rounding_double_round, of "- 2" 2 "sin x"] by simp
    then show "\<bar>double_round (sin x)\<bar> \<le> 1" by linarith
  qed
  note t = photoData_chaosPos [OF l u rounding_double_round s,
      of "\<lambda>x. double_round (cos x)", unfolded Let_def]
  from t have 1: "double_round (3 + double_round ((1 - 1 / 2 ^ 53) * 4)) \<le> 7"
    by simp
  from t have 2: "vy (chaosPos_rounded double_round (\<lambda>x. double_round (cos x))
         (\<lambda>x. double_round (sin x))
         (length [''a.jpg'', ''b.jpg'']) 1 (1 - 1 / 2 ^ 53) (1 - 1 / 2 ^ 53)) \<le> 9"
    by simp
  from t have 3: "vz (chaosPos_rounded double_round (\<lambda>x. double_round (cos x))
         (\<lambda>x. double_round (sin x))
         (length [''a.jpg'', ''b.jpg'']) 1 (1 - 1 / 2 ^ 53) (1 - 1 / 2 ^ 53)) \<le> 19.5"
    by simp
  from l u rounding_double_round s 1 2 3 show ?thesis by (intro conjI)
qed

text \<open>
  The claim C6 as it was written puts \<open>y\<close> in the open interval \<open>(1, 9)\<close> and the
  distance in \<open>[3, 7)\<close>. A draw of \<open>0\<close>, which \<open>Math.random\<close> may return, gives the
  height spread \<open>-4\<close> and \<open>y = 1\<close>, in exact and in double arithmetic alike. At the
  other end the draw \<open>1 - 1 / 2 ^ 53\<close>, the largest double below \<open>1\<close>, gives in double
  arithmetic the distance \<open>7\<close> and \<open>y = 9\<close>: the last addition is a tie and rounds up.
\<close>

theorem photoData_chaosPos_bounds_attained:
  "unit_draws (\<lambda>k. 0)
   \<and> vy (chaosPos (photoData [''a.jpg''] (\<lambda>k. 0) ! 0)) = 1
   \<and> \<not> 1 < vy (chaosPos (photoData [''a.jpg''] (\<lambda>k. 0) ! 0))
   \<and> vy (chaosPos_rounded double_round (\<lambda>x. double_round (cos x)) (\<lambda>x. double_round (sin x))
         1 0 0 0) = 1
   \<and> unit_draws (\<lambda>k. 1 - 1 / 2 ^ 53)
   \<and> double_round (1 - 1 / 2 ^ 53) = 1 - 1 / 2 ^ 53
   \<and> double_round (3 + double_round ((1 - 1 / 2 ^ 53) * 4)) = 7
   \<and> vy (chaosPos_rounded double_round (\<lambda>x. double_round (cos x)) (\<lambda>x. double_round (sin x))
         1 0 (1 - 1 / 2 ^ 53) (1 - 1 / 2 ^ 53)) = 9"
proof -
  have 1: "unit_draws (\<lambda>k. 0)" "unit_draws (\<lambda>k. 1 - 1 / 2 ^ 53)"
    by (simp_all add: unit_draws_def)
  have 2: "vy (chaosPos (photoData [''a.jpg''] (\<lambda>k. 0) ! 0)) = 1"
    by (simp add: photoData_nth photoData_entry_def Let_def)
  then have 3: "\<not> 1 < vy (chaosPos (photoData [''a.jpg''] (\<lambda>k. 0) ! 0))"
    by simp
  have h: "double_round (- (1 / 2)) = - (1 / 2)" "double_round (- 4) = - 4" "double_round 1 = 1"
    using double_round_half_int [of "- 1"] double_round_half_int [of "- 8"]
      double_round_half_int [of 2] by simp_all
  have 4: "vy (chaosPos_rounded double_round (\<lambda>x. double_round (cos x))
         (\<lambda>x. double_round (sin x)) 1 0 0 0) = 1"
    by (simp add: chaosPos_rounded_def Let_def h)
  have 5: "vy (chaosPos_rounded double_round (\<lambda>x. double_round (cos x))
         (\<lambda>x. double_round (sin x)) 1 0 (1 - 1 / 2 ^ 53) (1 - 1 / 2 ^ 53)) = 9"
    unfolding chaosPos_rounded_def Let_def
    by (simp only: Vector3.simps double_round_height_edge)
  from 1 2 3 4 5 double_round_draw double_round_distance_edge show ?thesis by (intro conjI)
qed

subsection \<open>The closest-photo loop\<close>

text \<open>
  With a finite running minimum \<open>m\<close>, the loop either keeps it, every child being at
  least \<open>m\<close> away, or ends at the first child of least distance, which is below \<open>m\<close>.
\<close>

lemma closest_forEach_Some:
  "i + length cs \<le> n \<Longrightarrow>
   (closest_forEach S cam n cs i (Some m, ci) = (Some m, ci)
      \<and> (\<forall>k<length cs. m \<le> cameraDistance S cam (cs ! k)))
   \<or> (\<exists>j<length cs.
        closest_forEach S cam n cs i (Some m, ci) = (Some (cameraDistance S cam (cs ! j)), i + j)
      \<and> cameraDistance S cam (cs ! j) < m
      \<and> (\<forall>k<length cs. cameraDistance S cam (cs ! j) \<le> cameraDistance S cam (cs ! k))
      \<and> (\<forall>k<j. cameraDistance S cam (cs ! j) < cameraDistance S cam (cs ! k)))"
proof (induction cs arbitrary: i m ci)
  case Nil
  then show ?case by simp
next
  case (Cons c rest)
  let ?D = "cameraDistance S cam"
  from Cons.prems have i: "i < n" and le: "(i + 1) + length rest \<le> n" by simp_all
  show ?case
  proof (cases "?D c < m")
    case True
    have step: "closest_forEach S cam n (c # rest) i (Some m, ci) =
        closest_forEach S cam n rest (i + 1) (Some (?D c), i)"
      using i True by (simp add: Let_def less_minDistance_def cameraDistance_def)
    from Cons.IH [OF le, of "?D c" i] show ?thesis
    proof (elim disjE conjE exE)
      assume r: "closest_forEach S cam n rest (i + 1) (Some (?D c), i) = (Some (?D c), i)"
        and a: "\<forall>k<length rest. ?D c \<le> ?D (rest ! k)"
      have "\<forall>k<length (c # rest). ?D ((c # rest) ! 0) \<le> ?D ((c # rest) ! k)"
        using a by (auto simp: nth_Cons')
      with r step True have "0 < length (c # rest)
        \<and> closest_forEach S cam n (c # rest) i (Some m, ci) = (Some (?D ((c # rest) ! 0)), i + 0)
        \<and> ?D ((c # rest) ! 0) < m
        \<and> (\<forall>k<length (c # rest). ?D ((c # rest) ! 0) \<le> ?D ((c # rest) ! k))
        \<and> (\<forall>k<0. ?D ((c # rest) ! 0) < ?D ((c # rest) ! k))"
        by simp
      then show ?thesis by blast
    next
      fix j
      assume j: "j < length rest"
        and r: "closest_forEach S cam n rest (i + 1) (Some (?D c), i) = (Some (?D (rest ! j)), i + 1 + j)"
        and lt: "?D (rest ! j) < ?D c"
        and a: "\<forall>k<length rest. ?D (rest ! j) \<le> ?D (rest ! k)"
        and b: "\<forall>k<j. ?D (rest ! j) < ?D (rest ! k)"
      have a': "\<forall>k<length (c # rest). ?D ((c # rest) ! Suc j) \<le> ?D ((c # rest) ! k)"
        using a lt by (auto simp: nth_Cons')
      have b': "\<forall>k<Suc j. ?D ((c # rest) ! Suc j) < ?D ((c # rest) ! k)"
        using b lt by (auto simp: nth_Cons' less_Suc_eq_0_disj)
      have "Suc j < length (c # rest)
        \<and> closest_forEach S cam n (c # rest) i (Some m, ci) = (Some (?D ((c # rest) ! Suc j)), i + Suc j)
        \<and> ?D ((c # rest) ! Suc j) < m"
        using j r step lt True by simp
      with a' b' show ?thesis by blast
    qed
  next
    case False
    have step: "closest_forEach S cam n (c # rest) i (Some m, ci) =
        closest_forEach S cam n rest (i + 1) (Some m, ci)"
      using i False by (simp add: Let_def less_minDistance_def cameraDistance_def)
    from Cons.IH [OF le, of m ci] show ?thesis
    proof (elim disjE conjE exE)
      assume r: "closest_forEach S cam n rest (i + 1) (Some m, ci) = (Some m, ci)"
        and a: "\<forall>k<length rest. m \<le> ?D (rest ! k)"
      have "\<forall>k<length (c # rest). m \<le> ?D ((c # rest) ! k)"
        using a False by (auto simp: nth_Cons')
      with r step show ?thesis by simp
    next
      fix j
      assume j: "j < length rest"
        and r: "closest_forEach S cam n rest (i + 1) (Some m, ci) = (Some (?D (rest ! j)), i + 1 + j)"
        and lt: "?D (rest ! j) < m"
        and a: "\<forall>k<length rest. ?D (rest ! j) \<le> ?D (rest ! k)"
        and b: "\<forall>k<j. ?D (rest ! j) < ?D (rest ! k)"
      have a': "\<forall>k<length (c # rest). ?D ((c # rest) ! Suc j) \<le> ?D ((c # rest) ! k)"
        using a lt False by (auto simp: nth_Cons')
      have b': "\<forall>k<Suc j. ?D ((c # rest) ! Suc j) < ?D ((c # rest) ! k)"
        using b lt False by (auto simp: nth_Cons' less_Suc_eq_0_disj)
      have "Suc j < length (c # rest)
        \<and> closest_forEach S cam n (c # rest) i (Some m, ci) = (Some (?D ((c # rest) ! Suc j)), i + Suc j)
        \<and> ?D ((c # rest) ! Suc j) < m"
        using j r step lt by simp
      with a' b' show ?thesis by blast
    qed
  qed
qed

lemma closest_forEach_start:
  assumes "cs \<noteq> []" and "length cs \<le> n"
  shows "\<exists>j<length cs.
      closest_forEach S cam n cs 0 (None, 0) = (Some (cameraDistance S cam (cs ! j)), j)
    \<and> (\<forall>k<length cs. cameraDistance S cam (cs ! j) \<le> cameraDistance S cam (cs ! k))
    \<and> (\<forall>k<j. cameraDistance S cam (cs ! j) < cameraDistance S cam (cs ! k))"
proof -
  let ?D = "cameraDistance S cam"
  from assms(1) obtain c rest where cs: "cs = c # rest" by (cases cs) auto
  with assms(2) have n: "0 < n" and le: "1 + length rest \<le> n" by simp_all
  have step: "closest_forEach S cam n cs 0 (None, 0) =
      closest_forEach S cam n rest 1 (Some (?D c), 0)"
    using n by (simp add: cs Let_def less_minDistance_def cameraDistance_def)
  from closest_forEach_Some [OF le, of S cam "?D c" 0] show ?thesis
  proof (elim disjE conjE exE)
    assume r: "closest_forEach S cam n rest 1 (Some (?D c), 0) = (Some (?D c), 0)"
      and a: "\<forall>k<length rest. ?D c \<le> ?D (rest ! k)"
    have "\<forall>k<length cs. ?D (cs ! 0) \<le> ?D (cs ! k)"
      using a by (auto simp: cs nth_Cons')
    with r step have "0 < length cs
      \<and> closest_forEach S cam n cs 0 (None, 0) = (Some (?D (cs ! 0)), 0)
      \<and> (\<forall>k<length cs. ?D (cs ! 0) \<le> ?D (cs ! k))
      \<and> (\<forall>k<0. ?D (cs ! 0) < ?D (cs ! k))"
      by (simp add: cs)
    then show ?thesis by blast
  next
    fix j
    assume j: "j < length rest"
      and r: "closest_forEach S cam n rest 1 (Some (?D c), 0) = (Some (?D (rest ! j)), 1 + j)"
      and lt: "?D (rest ! j) < ?D c"
      and a: "\<forall>k<length rest. ?D (rest ! j) \<le> ?D (rest ! k)"
      and b: "\<forall>k<j. ?D (rest ! j) < ?D (rest ! k)"
    have a': "\<forall>k<length cs. ?D (cs ! Suc j) \<le> ?D (cs ! k)"
      using a lt by (auto simp: cs nth_Cons')
    have b': "\<forall>k<Suc j. ?D (cs ! Suc j) < ?D (cs ! k)"
      using b lt by (auto simp: cs nth_Cons' less_Suc_eq_0_disj)
    have "Suc j < length cs
      \<and> closest_forEach S cam n cs 0 (None, 0) = (Some (?D (cs ! Suc j)), Suc j)"
      using j r step by (simp add: cs)
    with a' b' show ?thesis by blast
  qed
qed

subsection \<open>The closest photo\<close>

text \<open>
  Claim C10. With two hands detected, the group mounted with one child per photo and a
  non-empty photo list, the frame callback calls \<open>onClosestPhotoChange\<close> (when it is
  provided) with the URL of the photo whose child is nearest to the camera, the lowest
  index winning a tie. With no two hands detected it calls it with \<open>null\<close>. When the
  callback is not provided nothing is called, and \<open>Experience\<close>, which fixes
  \<open>twoHandsDetected\<close> to \<open>false\<close> and provides no callback, never reports a URL.
\<close>

theorem Polaroids_useFrame_closest:
  assumes "photos \<noteq> []" and "length (children g) = length photos"
  shows "(\<exists>j<length photos.
            Polaroids_useFrame S True (Some g) (photoData photos random) photos (Some f) cam idx
              = (j, Some (f (Url (photos ! j))))
          \<and> (\<forall>k<length photos.
                cameraDistance S cam (children g ! j) \<le> cameraDistance S cam (children g ! k))
          \<and> (\<forall>k<j. cameraDistance S cam (children g ! j) < cameraDistance S cam (children g ! k)))
       \<and> snd (Polaroids_useFrame S False gref pd photos (Some f) cam idx) = Some (f Null)
       \<and> snd (Polaroids_useFrame S b gref pd photos (None :: (photoUrl \<Rightarrow> 'e) option) cam idx) = None
       \<and> snd (Experience_Polaroids_useFrame S gref photos random cam idx) = (None :: 'e option)"
proof -
  let ?cs = "children g"
  let ?n = "length photos"
  have ne: "?cs \<noteq> []" and le: "length ?cs \<le> ?n"
    using assms by auto
  from closest_forEach_start [OF ne le, of S cam] obtain j where
    j: "j < ?n"
    and r: "closest_forEach S cam ?n ?cs 0 (None, 0) = (Some (cameraDistance S cam (?cs ! j)), j)"
    and a: "\<forall>k<?n. cameraDistance S cam (?cs ! j) \<le> cameraDistance S cam (?cs ! k)"
    and b: "\<forall>k<j. cameraDistance S cam (?cs ! j) < cameraDistance S cam (?cs ! k)"
    using assms(2) by auto
  have "Polaroids_useFrame S True (Some g) (photoData photos random) photos (Some f) cam idx
      = (j, Some (f (Url (photos ! j))))"
    using assms(1) j r by (simp add: Polaroids_useFrame_def photoData_length array_get_def)
  with j a b have first: "\<exists>j<length photos.
            Polaroids_useFrame S True (Some g) (photoData photos random) photos (Some f) cam idx
              = (j, Some (f (Url (photos ! j))))
          \<and> (\<forall>k<length photos.
                cameraDistance S cam (children g ! j) \<le> cameraDistance S cam (children g ! k))
          \<and> (\<forall>k<j. cameraDistance S cam (children g ! j) < cameraDistance S cam (children g ! k))"
    by blast
  have second: "snd (Polaroids_useFrame S False gref pd photos (Some f) cam idx) = Some (f Null)"
    by (simp add: Polaroids_useFrame_def)
  have third: "snd (Polaroids_useFrame S b gref pd photos (None :: (photoUrl \<Rightarrow> 'e) option) cam idx) = None"
    by (simp add: Polaroids_useFrame_def split: prod.splits)
  have fourth: "snd (Experience_Polaroids_useFrame S gref photos random cam idx) = (None :: 'e option)"
    by (simp add: Experience_Polaroids_useFrame_def Polaroids_useFrame_def)
  from first second third fourth show ?thesis by blast
qed

theorem Polaroids_useFrame_closest_witness:
  "[''a.jpg'', ''b.jpg''] \<noteq> []
   \<and> length (children \<lparr>children =
        [new_Object3D\<lparr>position := \<lparr>vx = 3, vy = 9, vz = 16\<rparr>\<rparr>,
         new_Object3D\<lparr>position := \<lparr>vx = 0, vy = 9, vz = 20\<rparr>\<rparr>]\<rparr>) = length [''a.jpg'', ''b.jpg'']
   \<and> Polaroids_useFrame
        \<lparr>getWorldPosition = (\<lambda>child. \<lparr>vx = vx (position child), vy = vy (position child) - 5,
                                        vz = vz (position child)\<rparr>),
         distanceTo = (\<lambda>v w. sqrt ((vx v - vx w)\<^sup>2 + (vy v - vy w)\<^sup>2 + (vz v - vz w)\<^sup>2))\<rparr>
        True
        (Some \<lparr>children =
          [new_Object3D\<lparr>position := \<lparr>vx = 3, vy = 9, vz = 16\<rparr>\<rparr>,
           new_Object3D\<lparr>position := \<lparr>vx = 0, vy = 9, vz = 20\<rparr>\<rparr>]\<rparr>)
        (photoData [''a.jpg'', ''b.jpg''] (\<lambda>k. 0)) [''a.jpg'', ''b.jpg'']
        (Some (\<lambda>u. u)) \<lparr>vx = 0, vy = 4, vz = 20\<rparr> 0
      = (1, Some (Url ''b.jpg''))"
proof -
  let ?S = "\<lparr>getWorldPosition = (\<lambda>child. \<lparr>vx = vx (position child), vy = vy (position child) - 5,
                                        vz = vz (position child)\<rparr>),
         distanceTo = (\<lambda>v w. sqrt ((vx v - vx w)\<^sup>2 + (vy v - vy w)\<^sup>2 + (vz v - vz w)\<^sup>2))\<rparr>"
  let ?g = "\<lparr>children =
          [new_Object3D\<lparr>position := \<lparr>vx = 3, vy = 9, vz = 16\<rparr>\<rparr>,
           new_Object3D\<lparr>position := \<lparr>vx = 0, vy = 9, vz = 20\<rparr>\<rparr>]\<rparr>"
  let ?cam = "\<lparr>vx = 0, vy = 4, vz = 20\<rparr>"
  let ?photos = "[''a.jpg'', ''b.jpg'']"
  have h1: "?photos \<noteq> []" by simp
  have h2: "length (children ?g) = length ?photos" by simp
  have d0: "0 < cameraDistance ?S ?cam (children ?g ! 0)"
    by (simp add: cameraDistance_def new_Object3D_def)
  have d1: "cameraDistance ?S ?cam (children ?g ! 1) = 0"
    by (simp add: cameraDistance_def new_Object3D_def)
  from Polaroids_useFrame_closest [OF h1 h2, of ?S "\<lambda>k. 0" "\<lambda>u. u" ?cam 0]
  obtain j where j: "j < length ?photos"
    and r: "Polaroids_useFrame ?S True (Some ?g) (photoData ?photos (\<lambda>k. 0)) ?photos
              (Some (\<lambda>u. u)) ?cam 0 = (j, Some (Url (?photos ! j)))"
    and a: "\<forall>k<length ?photos.
              cameraDistance ?S ?cam (children ?g ! j) \<le> cameraDistance ?S ?cam (children ?g ! k)"
    by blast
  have one: "(1::nat) < length ?photos" by simp
  have m: "cameraDistance ?S ?cam (children ?g ! j) \<le> cameraDistance ?S ?cam (children ?g ! 1)"
    by (rule a [rule_format, OF one])
  have "j \<noteq> 0"
  proof
    assume "j = 0"
    with m d1 have le0: "cameraDistance ?S ?cam (children ?g ! 0) \<le> 0" by (simp only:)
    from leD [OF le0] d0 show False by (rule notE)
  qed
  moreover have "j < 2" using j by simp
  ultimately have j1: "j = 1" by linarith
  have "?photos ! 1 = ''b.jpg''" by simp
  with r j1 have e: "Polaroids_useFrame ?S True (Some ?g) (photoData ?photos (\<lambda>k. 0)) ?photos
              (Some (\<lambda>u. u)) ?cam 0 = (1, Some (Url ''b.jpg''))"
    by (simp only:)
  from h1 h2 e show ?thesis by (intro conjI)
qed

subsection \<open>The frame of one polaroid\<close>

lemma Euler_update_xz:
  "e\<lparr>ez := a, ex := b\<rparr> = \<lparr>ex = b, ey = ey e, ez = a\<rparr>"
  "e\<lparr>ex := b, ez := a\<rparr> = \<lparr>ex = b, ey = ey e, ez = a\<rparr>"
  for e :: Euler
  by (cases e; simp)+

text \<open>
  Claim C2. On a frame with time step \<open>delta\<close>, the position of a mounted polaroid
  becomes the \<open>lerp\<close> of its old position toward the formed-tree target when the mode is
  FORMED and toward the chaos position when it is CHAOS, by the fraction
  \<open>delta * speed\<close> of that photo's own speed; no other target occurs. While the group is
  not mounted the frame changes nothing.
\<close>

theorem PolaroidItem_useFrame_position:
  "map_option position
     (groupRef (PolaroidItem_useFrame T data m t delta (item\<lparr>groupRef := Some g\<rparr>))) =
     Some (lerp T (position g) (if m = FORMED then targetPos data else chaosPos data)
             (delta * speed data))
   \<and> PolaroidItem_useFrame T data m t delta (item\<lparr>groupRef := None\<rparr>) = item\<lparr>groupRef := None\<rparr>"
  by (simp add: PolaroidItem_useFrame_def Let_def set_quaternion_def set_rotation_x_def
      set_rotation_z_def Euler_update_xz)

text \<open>
  Claim C4. On a frame in FORMED mode the quaternion of the polaroid is first slerped, by
  the fraction \<open>delta * speed\<close>, toward the quaternion of an object at the polaroid's new
  position that looks at the axis point \<open>(0, y, 0)\<close> of its own height and is then
  turned by \<open>pi\<close> about Y; in CHAOS mode it is slerped, by \<open>delta * 3\<close>, toward the
  quaternion of an object there that looks at \<open>(0, 9, 20)\<close>. The quaternion at the end
  of the frame is that one after the sway of the frame, set from the adjusted Euler
  angles.
\<close>

theorem PolaroidItem_useFrame_orientation:
  "map_option quaternion
     (groupRef (PolaroidItem_useFrame T data FORMED t delta (item\<lparr>groupRef := Some g\<rparr>))) =
     Some (let step = delta * speed data;
               p = lerp T (position g) (targetPos data) step;
               outward = rotateY T (lookAt T p \<lparr>vx = 0, vy = vy p, vz = 0\<rparr>) pi;
               aligned = slerp T (quaternion g) outward step;
               swayAngle = sin (t * 2.0 + swayOffset item) * 0.08;
               tiltAngle = cos (t * 1.5 + swayOffset item) * 0.05;
               currentRot = setFromQuaternion T (rotateZ T aligned (swayAngle * delta * 5))
           in setFromEuler T
                \<lparr>ex = ex currentRot + tiltAngle * 0.05,
                 ey = ey currentRot,
                 ez = ez currentRot + swayAngle * 0.05\<rparr>)
   \<and> map_option quaternion
     (groupRef (PolaroidItem_useFrame T data CHAOS t delta (item\<lparr>groupRef := Some g\<rparr>))) =
     Some (let p = lerp T (position g) (chaosPos data) (delta * speed data);
               facing = lookAt T p \<lparr>vx = 0, vy = 9, vz = 20\<rparr>;
               aligned = slerp T (quaternion g) facing (delta * 3);
               currentRot = setFromQuaternion T aligned
           in setFromEuler T
                \<lparr>ex = ex currentRot + sin (t * 1.5 + swayOffset item) * 0.03,
                 ey = ey currentRot,
                 ez = ez currentRot + cos (t * 1.2 + swayOffset item) * 0.03\<rparr>)"
  by (simp add: PolaroidItem_useFrame_def Let_def set_quaternion_def set_rotation_x_def
      set_rotation_z_def Euler_update_xz)

text \<open>
  Claim C5. The phase offset of a polaroid is drawn once, at mount, as \<open>r * 100\<close>, and
  neither a frame nor any handler changes it. On a frame in FORMED mode at elapsed time
  \<open>t\<close>, the sway angle \<open>sin (2.0 * t + offset) * 0.08\<close> is applied as
  \<open>rotateZ (swayAngle * delta * 5)\<close> and then once more, scaled by \<open>0.05\<close>, added to
  the Z Euler angle, and \<open>cos (1.5 * t + offset) * 0.05 * 0.05\<close> is added to the X Euler
  angle. In CHAOS mode \<open>sin (1.5 * t + offset) * 0.03\<close> is added to X and
  \<open>cos (1.2 * t + offset) * 0.03\<close> to Z.
\<close>

theorem PolaroidItem_useFrame_sway:
  "swayOffset (PolaroidItem_mount r) = r * 100
   \<and> swayOffset (PolaroidItem_useFrame T data m t delta item) = swayOffset item
   \<and> swayOffset (onLoad tex item) = swayOffset item
   \<and> swayOffset (onError item) = swayOffset item
   \<and> swayOffset (handlePointerOver item) = swayOffset item
   \<and> swayOffset (handlePointerOut item) = swayOffset item
   \<and> map_option rotation
     (groupRef (PolaroidItem_useFrame T data FORMED t delta (item\<lparr>groupRef := Some g\<rparr>))) =
     Some (let step = delta * speed data;
               p = lerp T (position g) (targetPos data) step;
               aligned = slerp T (quaternion g)
                 (rotateY T (lookAt T p \<lparr>vx = 0, vy = vy p, vz = 0\<rparr>) pi) step;
               swayAngle = sin (2.0 * t + swayOffset item) * 0.08;
               currentRot = setFromQuaternion T (rotateZ T aligned (swayAngle * delta * 5))
           in \<lparr>ex = ex currentRot + cos (1.5 * t + swayOffset item) * 0.05 * 0.05,
               ey = ey currentRot,
               ez = ez currentRot + swayAngle * 0.05\<rparr>)
   \<and> map_option rotation
     (groupRef (PolaroidItem_useFrame T data CHAOS t delta (item\<lparr>groupRef := Some g\<rparr>))) =
     Some (let p = lerp T (position g) (chaosPos data) (delta * speed data);
               aligned = slerp T (quaternion g) (lookAt T p \<lparr>vx = 0, vy = 9, vz = 20\<rparr>) (delta * 3);
               currentRot = setFromQuaternion T aligned
           in \<lparr>ex = ex currentRot + sin (1.5 * t + swayOffset item) * 0.03,
               ey = ey currentRot,
               ez = ez currentRot + cos (1.2 * t + swayOffset item) * 0.03\<rparr>)"
proof -
  have 1: "swayOffset (PolaroidItem_useFrame T data m t delta item) = swayOffset item"
    by (simp add: PolaroidItem_useFrame_def Let_def split: option.splits)
  have 2: "swayOffset (PolaroidItem_mount r) = r * 100"
    "swayOffset (onLoad tex item) = swayOffset item"
    "swayOffset (onError item) = swayOffset item"
    "swayOffset (handlePointerOver item) = swayOffset item"
    "swayOffset (handlePointerOut item) = swayOffset item"
    by (simp_all add: PolaroidItem_mount_def onLoad_def onError_def handlePointerOver_def
        handlePointerOut_def)
  have c: "t * 2.0 = 2.0 * t" "t * 1.5 = 1.5 * t" "t * 1.2 = 1.2 * t"
    by simp_all
  have 3: "map_option rotation
     (groupRef (PolaroidItem_useFrame T data FORMED t delta (item\<lparr>groupRef := Some g\<rparr>))) =
     Some (let step = delta * speed data;
               p = lerp T (position g) (targetPos data) step;
               aligned = slerp T (quaternion g)
                 (rotateY T (lookAt T p \<lparr>vx = 0, vy = vy p, vz = 0\<rparr>) pi) step;
               swayAngle = sin (2.0 * t + swayOffset item) * 0.08;
               currentRot = setFromQuaternion T (rotateZ T aligned (swayAngle * delta * 5))
           in \<lparr>ex = ex currentRot + cos (1.5 * t + swayOffset item) * 0.05 * 0.05,
               ey = ey currentRot,
               ez = ez currentRot + swayAngle * 0.05\<rparr>)"
    unfolding c [symmetric]
    by (simp add: PolaroidItem_useFrame_def Let_def set_quaternion_def set_rotation_x_def
        set_rotation_z_def Euler_update_xz)
  have 4: "map_option rotation
     (groupRef (PolaroidItem_useFrame T data CHAOS t delta (item\<lparr>groupRef := Some g\<rparr>))) =
     Some (let p = lerp T (position g) (chaosPos data) (delta * speed data);
               aligned = slerp T (quaternion g) (lookAt T p \<lparr>vx = 0, vy = 9, vz = 20\<rparr>) (delta * 3);
               currentRot = setFromQuaternion T aligned
           in \<lparr>ex = ex currentRot + sin (1.5 * t + swayOffset item) * 0.03,
               ey = ey currentRot,
               ez = ez currentRot + cos (1.2 * t + swayOffset item) * 0.03\<rparr>)"
    unfolding c [symmetric]
    by (simp add: PolaroidItem_useFrame_def Let_def set_quaternion_def set_rotation_x_def
        set_rotation_z_def Euler_update_xz)
  from 1 2 3 4 show ?thesis by (intro conjI)
qed

subsection \<open>Clicks, the failed texture and the modal\<close>

text \<open>
  Claim C9. When the error flag of a polaroid is set, a click on it does not call
  \<open>onPhotoClick\<close>, whatever the callback, so the click leaves the application state as
  it is and the photo is not opened in the modal; the item renders the dark-red fallback
  material \<open>#550000\<close> and the label \<open>Image not found\<close>.
\<close>

theorem texture_error_blocks_click:
  assumes "error item"
  shows "handleClick cb item data = None
       \<and> polaroid_click item data s = s
       \<and> photoMaterial (PolaroidItem_render item) = meshStandardMaterial ''#550000''
       \<and> label (PolaroidItem_render item) = ''Image not found''"
  using assms
  by (simp add: handleClick_def polaroid_click_def PolaroidItem_render_def
      split: option.splits)

theorem texture_error_blocks_click_witness:
  "error (onError (PolaroidItem_mount (1 / 2)))
   \<and> handleClick (Some (\<lambda>u. u)) (onError (PolaroidItem_mount (1 / 2)))
        (photoData [''missing.jpg''] (\<lambda>k. 0) ! 0) = None
   \<and> photoMaterial (PolaroidItem_render (onError (PolaroidItem_mount (1 / 2))))
        = meshStandardMaterial ''#550000''
   \<and> label (PolaroidItem_render (onError (PolaroidItem_mount (1 / 2)))) = ''Image not found''"
proof -
  have e: "error (onError (PolaroidItem_mount (1 / 2)))"
    by (simp add: onError_def)
  from texture_error_blocks_click [OF e] e show ?thesis
    by blast
qed

text \<open>
  Claim C7, as amended. A click on a polaroid whose error flag is not set makes its URL
  the selected photo, and the modal then shows exactly that URL when the URL is not the
  empty string; a click on a polaroid whose error flag is set changes nothing. A click
  on the backdrop or on the close button sets the selected photo back to \<open>null\<close>, after
  which no modal is rendered. The modal is rendered if and only if the selected photo is
  neither \<open>null\<close> nor the empty string, and it shows the selected photo.
\<close>

theorem photo_modal:
  "selectedPhoto (polaroid_click item data s) =
     (if error item then selectedPhoto s else Some (url data))
   \<and> App_modal (polaroid_click item data s) =
     (if error item then App_modal s else if url data = [] then None else Some (url data))
   \<and> selectedPhoto (modal_click Backdrop s) = None
   \<and> selectedPhoto (modal_click CloseButton s) = None
   \<and> selectedPhoto (closePhotoPopup s) = None
   \<and> App_modal (closePhotoPopup s) = None
   \<and> (App_modal s \<noteq> None) = (selectedPhoto s \<noteq> None \<and> selectedPhoto s \<noteq> Some [])
   \<and> (App_modal s = None \<or> App_modal s = selectedPhoto s)"
  by (simp add: polaroid_click_def handleClick_def handlePhotoClick_def App_modal_def truthy_def
      modal_click_def closePhotoPopup_def split: option.splits)

text \<open>
  The claim C7 as it was written fails twice. A click on a polaroid whose texture failed
  to load does not select its URL; and a selected photo that is the empty string is not
  \<open>null\<close>, yet no modal is rendered for it.
\<close>

theorem photo_modal_claim_fails:
  "error (onError (PolaroidItem_mount 0))
   \<and> selectedPhoto (polaroid_click (onError (PolaroidItem_mount 0))
        (photoData [''missing.jpg''] (\<lambda>k. 0) ! 0) App_initial) = None
   \<and> url (photoData [''missing.jpg''] (\<lambda>k. 0) ! 0) = ''missing.jpg''
   \<and> selectedPhoto (handlePhotoClick [] App_initial) \<noteq> None
   \<and> App_modal (handlePhotoClick [] App_initial) = None"
  by (simp add: onError_def polaroid_click_def handleClick_def App_initial_def
      handlePhotoClick_def App_modal_def truthy_def photoData_nth photoData_entry_def Let_def)

subsection \<open>The mode toggle\<close>

lemma reachableMode_all: "reachableMode m"
proof (cases m)
  case FORMED
  then show ?thesis using reachableMode.start by (simp add: initialMode_def)
next
  case CHAOS
  have "reachableMode (toggleMode initialMode)"
    by (rule reachableMode.toggle [OF reachableMode.start])
  then show ?thesis using CHAOS by (simp add: toggleMode_def initialMode_def)
qed

text \<open>
  Claim C3. A tree mode is FORMED or CHAOS and the two differ; \<open>toggleMode\<close> sends
  FORMED to CHAOS and every other mode to FORMED; toggling twice gives the mode back;
  and the modes reachable from the initial one are exactly these two.
\<close>

theorem toggleMode_two_state_involution:
  "(UNIV :: TreeMode set) = {FORMED, CHAOS} \<and> FORMED \<noteq> CHAOS
   \<and> toggleMode FORMED = CHAOS
   \<and> toggleMode m = (if m = FORMED then CHAOS else FORMED)
   \<and> toggleMode CHAOS = FORMED
   \<and> toggleMode (toggleMode m) = m
   \<and> {s. reachableMode s} = {FORMED, CHAOS}
   \<and> card {s. reachableMode s} = 2"
proof -
  have u: "(UNIV :: TreeMode set) = {FORMED, CHAOS}"
    using TreeMode.exhaust by auto
  have inv: "toggleMode (toggleMode m) = m"
    by (cases m) (simp_all add: toggleMode_def)
  have r: "{s. reachableMode s} = {FORMED, CHAOS}"
    using u by (simp add: reachableMode_all)
  have c: "card {s. reachableMode s} = 2"
    by (simp add: r)
  have t: "toggleMode FORMED = CHAOS" "toggleMode CHAOS = FORMED"
    "toggleMode m = (if m = FORMED then CHAOS else FORMED)"
    by (simp_all add: toggleMode_def)
  from u inv r c t show ?thesis
    by blast
qed

end
